theory Spec2Isabelle
  imports Main
begin

section \<open>Python exceptions as values\<close>

text \<open>
  The planner is Python. Every \<^verbatim>\<open>raise\<close> is a value \<open>Inl e\<close> of a result type,
  every \<^verbatim>\<open>except C\<close> clause is a test \<open>isinstance e C\<close>. The classes are the ones the
  two source files and the libraries they call can raise; \<open>bases\<close> lists the proper
  ancestors of a class, as Python's class hierarchy has them. An exception carries the
  text \<^verbatim>\<open>str(e)\<close> gives; for exceptions of the interpreter and the libraries that text
  is abridged.
\<close>

datatype exc_class =
    BaseException | KeyboardInterrupt | SystemExit | CancelledError
  | Exception | ValueError | ParserError | JSONDecodeError
  | ImportError | ModuleNotFoundError | AttributeError | TypeError
  | KeyError | IndexError | OverflowError | RequestException | RuntimeError

fun bases :: "exc_class \<Rightarrow> exc_class list" where
  "bases BaseException = []"
| "bases KeyboardInterrupt = [BaseException]"
| "bases SystemExit = [BaseException]"
| "bases CancelledError = [BaseException]"
| "bases Exception = [BaseException]"
| "bases ParserError = [ValueError, Exception, BaseException]"
| "bases JSONDecodeError = [ValueError, Exception, BaseException]"
| "bases ModuleNotFoundError = [ImportError, Exception, BaseException]"
| "bases c = [Exception, BaseException]"

datatype py_exc = Exc (exc_cls: exc_class) (exc_str: string)

definition isinstance :: "py_exc \<Rightarrow> exc_class \<Rightarrow> bool" where
  "isinstance e c = (exc_cls e = c \<or> c \<in> set (bases (exc_cls e)))"

type_synonym 'a result = "py_exc + 'a"

text \<open>\<^verbatim>\<open>KeyError(k)\<close> for a string key: its text is the key in quotes.\<close>

definition key_error :: "string \<Rightarrow> py_exc" where
  "key_error k = Exc KeyError ([CHR 0x27] @ k @ [CHR 0x27])"

definition bind :: "'a result \<Rightarrow> ('a \<Rightarrow> 'b result) \<Rightarrow> 'b result" where
  "bind r f = (case r of Inl e \<Rightarrow> Inl e | Inr v \<Rightarrow> f v)"

section \<open>Characters and decimal numerals\<close>

text \<open>
  Python strings are sequences of code points; the model takes the code points 0 to 255
  (\<^typ>\<open>char\<close>), on which the classes \<^verbatim>\<open>\w\<close>, \<^verbatim>\<open>\s\<close> and \<^verbatim>\<open>\d\<close> of Python's
  \<^verbatim>\<open>re\<close> for \<^verbatim>\<open>str\<close> patterns are the sets below.
\<close>

definition code :: "char \<Rightarrow> int" where
  "code c = of_char c"

definition is_digit :: "char \<Rightarrow> bool" where
  "is_digit c = (48 \<le> code c \<and> code c \<le> 57)"

definition is_space :: "char \<Rightarrow> bool" where
  "is_space c = (let n = code c in
     (9 \<le> n \<and> n \<le> 13) \<or> (28 \<le> n \<and> n \<le> 32) \<or> n = 133 \<or> n = 160)"

definition is_word :: "char \<Rightarrow> bool" where
  "is_word c = (let n = code c in
     (48 \<le> n \<and> n \<le> 57) \<or> (65 \<le> n \<and> n \<le> 90) \<or> n = 95 \<or> (97 \<le> n \<and> n \<le> 122)
     \<or> n = 170 \<or> n = 178 \<or> n = 179 \<or> n = 181 \<or> n = 185 \<or> n = 186
     \<or> (188 \<le> n \<and> n \<le> 190) \<or> (192 \<le> n \<and> n \<le> 214) \<or> (216 \<le> n \<and> n \<le> 246)
     \<or> 248 \<le> n)"

definition ascii_lower :: "char \<Rightarrow> char" where
  "ascii_lower c =
     (case map_of (zip ''ABCDEFGHIJKLMNOPQRSTUVWXYZ'' ''abcdefghijklmnopqrstuvwxyz'') c of
        None \<Rightarrow> c
      | Some l \<Rightarrow> l)"

definition digit_char :: "int \<Rightarrow> char" where
  "digit_char n = ''0123456789'' ! nat (n mod 10)"

text \<open>\<^verbatim>\<open>str(n)\<close> for an integer, as the f-string formats \<^verbatim>\<open>reference_date.year\<close>.\<close>

function str_int :: "int \<Rightarrow> string" where
  "str_int n =
     (if n < 0 then CHR ''-'' # str_int (- n)
      else if n < 10 then [digit_char n]
      else str_int (n div 10) @ [digit_char n])"
  by pat_completeness auto
termination
  by (relation "measure (\<lambda>n. if n < 0 then Suc (nat (- n)) else nat n)") auto

declare str_int.simps [simp del]

text \<open>\<^verbatim>\<open>int(s)\<close> on the text of a regex group: optional leading blanks, then decimal digits.\<close>

definition digits_value :: "string \<Rightarrow> int" where
  "digits_value s = foldl (\<lambda>n c. 10 * n + (code c - 48)) 0 s"

definition py_int :: "string \<Rightarrow> int" where
  "py_int s = digits_value (dropWhile is_space s)"

section \<open>Calendar dates\<close>

record date =
  year :: int
  month :: int
  day :: int

definition is_leap :: "int \<Rightarrow> bool" where
  "is_leap y = (if y mod 400 = 0 then True else if y mod 100 = 0 then False else y mod 4 = 0)"

definition days_in_month :: "int \<Rightarrow> int \<Rightarrow> int" where
  "days_in_month y m =
     (if m = 2 then (if is_leap y then 29 else 28)
      else if m = 4 \<or> m = 6 \<or> m = 9 \<or> m = 11 then 30 else 31)"

text \<open>The constructor \<^verbatim>\<open>date(y, m, d)\<close>: years 1 to 9999, ValueError otherwise.\<close>

definition date_new :: "int \<Rightarrow> int \<Rightarrow> int \<Rightarrow> date result" where
  "date_new y m d =
     (if y < 1 \<or> 9999 < y then Inl (Exc ValueError (''year '' @ str_int y @ '' is out of range''))
      else if m < 1 \<or> 12 < m then Inl (Exc ValueError ''month must be in 1..12'')
      else if d < 1 \<or> days_in_month y m < d then Inl (Exc ValueError ''day is out of range for month'')
      else Inr \<lparr>year = y, month = m, day = d\<rparr>)"

text \<open>\<^verbatim>\<open>d.replace(year=y)\<close> builds a new date and validates it.\<close>

definition replace_year :: "date \<Rightarrow> int \<Rightarrow> date result" where
  "replace_year d y = date_new y (month d) (day d)"

definition date_lt :: "date \<Rightarrow> date \<Rightarrow> bool" where
  "date_lt a b = (year a < year b \<or> (year a = year b \<and>
     (month a < month b \<or> (month a = month b \<and> day a < day b))))"

section \<open>Regular expressions of the resolver\<close>

text \<open>
  A backtracking matcher for the fragment of \<^verbatim>\<open>re\<close> the resolver and \<^verbatim>\<open>strptime\<close>
  use. \<open>run r (s, g)\<close> lists, in the order Python's engine tries them, the states
  (rest of the input, captured groups) after \<open>r\<close> has matched a prefix of \<open>s\<close>; the head of
  the list is the match Python reports. Repetition is greedy. Literals compare without
  regard to ASCII case, as under \<^verbatim>\<open>re.IGNORECASE\<close>.
\<close>

datatype cset = Word | Space | Digit | Range char char

fun in_cset :: "cset \<Rightarrow> char \<Rightarrow> bool" where
  "in_cset Word c = is_word c"
| "in_cset Space c = is_space c"
| "in_cset Digit c = is_digit c"
| "in_cset (Range a b) c = (code a \<le> code c \<and> code c \<le> code b)"

datatype regex =
    Set cset
  | Lit string
  | Seq regex regex
  | Alt regex regex
  | Opt regex
  | Plus cset
  | Group string regex

type_synonym captures = "(string \<times> string) list"
type_synonym mstate = "string \<times> captures"

text \<open>The input left after the literal \<open>l\<close>, when the input starts with it.\<close>

fun lit_rest :: "string \<Rightarrow> string \<Rightarrow> string option" where
  "lit_rest [] s = Some s"
| "lit_rest (a # l) [] = None"
| "lit_rest (a # l) (c # s) = (if ascii_lower a = ascii_lower c then lit_rest l s else None)"

fun plus_rests :: "cset \<Rightarrow> string \<Rightarrow> string list" where
  "plus_rests cs [] = []"
| "plus_rests cs (c # t) = (if in_cset cs c then plus_rests cs t @ [t] else [])"

fun run :: "regex \<Rightarrow> mstate \<Rightarrow> mstate list" where
  "run (Set cs) (s, g) = (case s of [] \<Rightarrow> [] | c # t \<Rightarrow> if in_cset cs c then [(t, g)] else [])"
| "run (Lit l) (s, g) = (case lit_rest l s of None \<Rightarrow> [] | Some t \<Rightarrow> [(t, g)])"
| "run (Seq a b) st = concat (map (run b) (run a st))"
| "run (Alt a b) st = run a st @ run b st"
| "run (Opt a) st = run a st @ [st]"
| "run (Plus cs) (s, g) = map (\<lambda>t. (t, g)) (plus_rests cs s)"
| "run (Group n a) (s, g) =
     map (\<lambda>(t, g'). (t, (n, take (length s - length t) s) # g')) (run a (s, g))"

text \<open>\<^verbatim>\<open>re.match(pattern, s)\<close>: anchored at the start, first match in priority order.\<close>

definition re_match :: "regex \<Rightarrow> string \<Rightarrow> mstate option" where
  "re_match r s = (case run r (s, []) of [] \<Rightarrow> None | st # _ \<Rightarrow> Some st)"

text \<open>
  A character no part of the expression can consume: it is in none of its classes and
  occurs, in either case, in none of its literals.
\<close>

fun inert :: "char \<Rightarrow> regex \<Rightarrow> bool" where
  "inert c (Set cs) = (\<not> in_cset cs c)"
| "inert c (Lit l) = (ascii_lower c \<notin> set (map ascii_lower l))"
| "inert c (Seq a b) = (inert c a \<and> inert c b)"
| "inert c (Alt a b) = (inert c a \<and> inert c b)"
| "inert c (Opt a) = inert c a"
| "inert c (Plus cs) = (\<not> in_cset cs c)"
| "inert c (Group n a) = inert c a"

text \<open>\<^verbatim>\<open>match.group(name)\<close>, and its text inside an f-string (\<^verbatim>\<open>None\<close> prints as None).\<close>

definition group :: "mstate \<Rightarrow> string \<Rightarrow> string option" where
  "group m n = map_of (snd m) n"

definition fmt_group :: "string option \<Rightarrow> string" where
  "fmt_group v = (case v of None \<Rightarrow> ''None'' | Some t \<Rightarrow> t)"

definition seqs :: "regex list \<Rightarrow> regex" where
  "seqs rs = foldr Seq (butlast rs) (last rs)"

definition alts :: "regex list \<Rightarrow> regex" where
  "alts rs = foldr Alt (butlast rs) (last rs)"

text \<open>\<^verbatim>\<open>\d{1,2}\<close>: two digits when there are two, else one.\<close>

definition digits12 :: regex where
  "digits12 = Seq (Set Digit) (Opt (Set Digit))"

text \<open>
  The three patterns of \<^verbatim>\<open>formats\<close>, each with the \<^verbatim>\<open>date_format\<close> the source pairs it
  with (the loop body never reads that component).
\<close>

definition pattern_month_day_suffix :: regex where
  "pattern_month_day_suffix =
     seqs [Group ''month'' (Plus Word), Plus Space, Group ''day'' digits12,
           Opt (alts [Lit ''st'', Lit ''nd'', Lit ''rd'', Lit ''th''])]"

definition pattern_month_day :: regex where
  "pattern_month_day = seqs [Group ''month'' (Plus Word), Plus Space, Group ''day'' digits12]"

definition pattern_slash :: regex where
  "pattern_slash = seqs [Group ''month'' digits12, Lit ''/'', Group ''day'' digits12]"

definition formats :: "(regex \<times> string) list" where
  "formats = [(pattern_month_day_suffix, ''%B %d''),
              (pattern_month_day, ''%B %d''),
              (pattern_slash, ''%m/%d'')]"

section \<open>strptime with the format %B %d %Y\<close>

text \<open>
  \<^verbatim>\<open>datetime.strptime(data, "%B %d %Y").date()\<close> in the C locale. CPython turns the
  format into a regular expression (blanks become \<^verbatim>\<open>\s+\<close>), matches it at the start
  of the data without regard to case, and raises ValueError when nothing matches, when
  data remains after the match, or when the day does not exist in the month.
\<close>

definition month_names :: "string list" where
  "month_names = [''january'', ''february'', ''march'', ''april'', ''may'', ''june'', ''july'',
                  ''august'', ''september'', ''october'', ''november'', ''december'']"

definition regex_B :: regex where
  "regex_B = Group ''B'' (alts (map Lit
     [''september'', ''february'', ''november'', ''december'', ''january'', ''october'',
      ''august'', ''march'', ''april'', ''june'', ''july'', ''may'']))"

definition regex_d :: regex where
  "regex_d = Group ''d'' (alts
     [Seq (Lit ''3'') (Set (Range CHR ''0'' CHR ''1'')),
      Seq (Set (Range CHR ''1'' CHR ''2'')) (Set Digit),
      Seq (Lit ''0'') (Set (Range CHR ''1'' CHR ''9'')),
      Set (Range CHR ''1'' CHR ''9''),
      Seq (Lit '' '') (Set (Range CHR ''1'' CHR ''9''))])"

definition regex_Y :: regex where
  "regex_Y = Group ''Y'' (seqs [Set Digit, Set Digit, Set Digit, Set Digit])"

definition format_regex :: regex where
  "format_regex = seqs [regex_B, Plus Space, regex_d, Plus Space, regex_Y]"

fun index_of :: "'a \<Rightarrow> 'a list \<Rightarrow> int option" where
  "index_of x [] = None"
| "index_of x (y # ys) = (if x = y then Some 0 else map_option (\<lambda>i. i + 1) (index_of x ys))"

definition strptime_BdY :: "string \<Rightarrow> date result" where
  "strptime_BdY data =
     (case re_match format_regex data of
        None \<Rightarrow> Inl (Exc ValueError ''time data does not match format'')
      | Some found \<Rightarrow>
          if fst found \<noteq> [] then Inl (Exc ValueError ''unconverted data remains'')
          else (case index_of (map ascii_lower (fmt_group (group found ''B''))) month_names of
                  None \<Rightarrow> Inl (Exc ValueError ''not in list'')
                | Some i \<Rightarrow> date_new (py_int (fmt_group (group found ''Y''))) (i + 1)
                              (py_int (fmt_group (group found ''d'')))))"

section \<open>The date resolver\<close>

text \<open>
  The lenient parser \<^verbatim>\<open>dateutil.parser.parse(date_str, default=reference_date)\<close> is a
  library outside the repository: it is a parameter of the model. It raises (ImportError
  when the library is not installed) or returns an object, which is a plain
  \<^verbatim>\<open>date\<close> or a \<^verbatim>\<open>datetime\<close> (whose time of day \<^verbatim>\<open>.date()\<close> drops and the model omits).
  A plain \<^verbatim>\<open>date\<close> has no method \<^verbatim>\<open>date\<close>.
\<close>

datatype pyobj = DateObj date | DatetimeObj date

type_synonym lenient_parser = "string \<Rightarrow> date \<Rightarrow> pyobj result"

definition obj_date :: "pyobj \<Rightarrow> date result" where
  "obj_date obj = (case obj of
       DatetimeObj d \<Rightarrow> Inr d
     | DateObj d \<Rightarrow> Inl (Exc AttributeError ''datetime.date object has no attribute date''))"

text \<open>
  Lines 46-47 and 56-57: a date before the reference date moves to the next year, unless
  the reference date is December 31.
\<close>

definition rollover :: "date \<Rightarrow> date \<Rightarrow> date result" where
  "rollover parsed_date reference_date =
     (if date_lt parsed_date reference_date \<and> (month reference_date, day reference_date) \<noteq> (12, 31)
      then replace_year parsed_date (year reference_date + 1)
      else Inr parsed_date)"

text \<open>The body of the \<^verbatim>\<open>try\<close> inside the loop, for a pattern that matched.\<close>

definition construct :: "mstate \<Rightarrow> date \<Rightarrow> date result" where
  "construct m reference_date =
     strptime_BdY (fmt_group (group m ''month'') @ '' '' @ fmt_group (group m ''day'') @ '' ''
                   @ str_int (year reference_date))"

definition loop_body :: "mstate \<Rightarrow> date \<Rightarrow> date result" where
  "loop_body m reference_date =
     bind (construct m reference_date) (\<lambda>parsed_date. rollover parsed_date reference_date)"

text \<open>
  The \<^verbatim>\<open>for\<close> loop over \<^verbatim>\<open>formats\<close>: \<open>Inr (Some d)\<close> is \<^verbatim>\<open>return d\<close>, \<open>Inr None\<close> is
  the loop running out, \<open>Inl e\<close> an exception the \<^verbatim>\<open>except\<close> clause does not catch.
\<close>

fun try_formats :: "(regex \<times> string) list \<Rightarrow> string \<Rightarrow> date \<Rightarrow> date option result" where
  "try_formats [] date_str reference_date = Inr None"
| "try_formats ((pattern, date_format) # rest) date_str reference_date =
     (case re_match pattern date_str of
        None \<Rightarrow> try_formats rest date_str reference_date
      | Some m \<Rightarrow>
          (case loop_body m reference_date of
             Inr d \<Rightarrow> Inr (Some d)
           | Inl e \<Rightarrow>
               if isinstance e ValueError \<or> isinstance e AttributeError
               then try_formats rest date_str reference_date
               else Inl e))"

definition lenient_fallback :: "lenient_parser \<Rightarrow> string \<Rightarrow> date \<Rightarrow> date result" where
  "lenient_fallback parse date_str reference_date =
     (case bind (parse date_str reference_date) (\<lambda>obj.
             bind (obj_date obj) (\<lambda>parsed_date. rollover parsed_date reference_date)) of
        Inr d \<Rightarrow> Inr d
      | Inl e \<Rightarrow>
          if isinstance e ImportError \<or> isinstance e ValueError
          then Inr reference_date
          else Inl e)"

text \<open>
  \<open>today\<close> is the value \<^verbatim>\<open>date.today()\<close> would read from the clock; it is used only
  when no reference date is passed.
\<close>

definition parse_date_with_reference ::
    "lenient_parser \<Rightarrow> date \<Rightarrow> string \<Rightarrow> date option \<Rightarrow> date result" where
  "parse_date_with_reference parse today date_str reference_date =
     (let ref = (case reference_date of None \<Rightarrow> today | Some r \<Rightarrow> r) in
      case try_formats formats date_str ref of
        Inl e \<Rightarrow> Inl e
      | Inr (Some d) \<Rightarrow> Inr d
      | Inr None \<Rightarrow> lenient_fallback parse date_str ref)"

text \<open>An installation without the lenient parser: the import raises.\<close>

definition no_dateutil :: lenient_parser where
  "no_dateutil date_str ref = Inl (Exc ModuleNotFoundError ''No module named dateutil'')"

text \<open>A parser that returns the given object, whatever the string.\<close>

definition dateutil_returns :: "pyobj \<Rightarrow> lenient_parser" where
  "dateutil_returns obj date_str ref = Inr obj"

text \<open>
  A lenient parser in the manner of dateutil, for strings month/day/two-digit year only.
  dateutil completes a two-digit year to the year within fifty years of the current one
  (\<^verbatim>\<open>parserinfo.convertyear\<close>), and it takes the current year from
  \<^verbatim>\<open>time.localtime()\<close> when the library is loaded, which the first call of the resolver
  does (\<^verbatim>\<open>from dateutil import parser\<close> is inside the function). The date it builds is the
  default with the year, month and day replaced, so a plain \<^verbatim>\<open>date\<close>; a date that does not
  exist raises ParserError, a subclass of ValueError.
\<close>

definition convertyear :: "int \<Rightarrow> int \<Rightarrow> int" where
  "convertyear current_year y =
     (let century = current_year div 100 * 100; y1 = y + century
      in if current_year + 50 \<le> y1 then y1 - 100
         else if y1 < current_year - 50 then y1 + 100
         else y1)"

definition pattern_mdy :: regex where
  "pattern_mdy = seqs [Group ''m'' digits12, Lit ''/'', Group ''d'' digits12, Lit ''/'',
                       Group ''y'' (Seq (Set Digit) (Set Digit))]"

definition dateutil_two_digit_year :: "int \<Rightarrow> lenient_parser" where
  "dateutil_two_digit_year current_year date_str ref =
     (case re_match pattern_mdy date_str of
        None \<Rightarrow> Inl (Exc ParserError ''Unknown string format'')
      | Some m \<Rightarrow>
          if fst m \<noteq> [] then Inl (Exc ParserError ''Unknown string format'')
          else (case date_new (convertyear current_year (py_int (fmt_group (group m ''y''))))
                       (py_int (fmt_group (group m ''m''))) (py_int (fmt_group (group m ''d''))) of
                  Inl e \<Rightarrow> Inl (Exc ParserError (exc_str e))
                | Inr d \<Rightarrow> Inr (DateObj d)))"

text \<open>
  The match of the first pattern of the list that matches, and the date the loop body
  constructs from it with the reference date's year (before the rollover rule).
\<close>

fun first_match :: "(regex \<times> string) list \<Rightarrow> string \<Rightarrow> mstate option" where
  "first_match [] date_str = None"
| "first_match ((pattern, date_format) # rest) date_str =
     (case re_match pattern date_str of
        None \<Rightarrow> first_match rest date_str
      | Some m \<Rightarrow> Some m)"

definition first_constructed :: "string \<Rightarrow> date \<Rightarrow> date result option" where
  "first_constructed date_str reference_date =
     (case first_match formats date_str of
        None \<Rightarrow> None
      | Some m \<Rightarrow> Some (construct m reference_date))"

section \<open>The trip-planning orchestrator\<close>

text \<open>
  \<^verbatim>\<open>LangChainTravelPlanner\<close> keeps one mutable list, \<^verbatim>\<open>self.chat_history\<close>; the model, the
  prompt template and the agent executor are LangChain objects outside the repository
  and enter \<open>plan_trip\<close> as the parameters \<open>format_messages\<close> and \<open>ainvoke\<close>, each of which
  returns or raises. \<open>format_exc\<close> is the text \<^verbatim>\<open>traceback.format_exc()\<close> gives for the
  exception being handled. The response of the executor is \<^verbatim>\<open>None\<close> or a dictionary
  with text values.
\<close>

datatype message = HumanMessage string | AIMessage string

datatype pyval = PyBool bool | PyStr string

type_synonym turn = "string \<rightharpoonup> string"

record request_data =
  rq_input :: "string option"
  rq_chat_history :: "turn list option"

record planner =
  chat_history :: "message list"

record runtime =
  format_messages :: "string \<Rightarrow> message list \<Rightarrow> message list result"
  ainvoke :: "message list \<Rightarrow> (string \<times> string) list option result"
  format_exc :: "py_exc \<Rightarrow> string"

definition getitem :: "(string \<rightharpoonup> 'v) \<Rightarrow> string \<Rightarrow> 'v result" where
  "getitem d k = (case d k of None \<Rightarrow> Inl (key_error k) | Some v \<Rightarrow> Inr v)"

text \<open>
  One element of the list comprehension of lines 278-282: the role is read first, then
  the content; a missing key raises KeyError.
\<close>

definition convert_turn :: "turn \<Rightarrow> message result" where
  "convert_turn msg =
     bind (getitem msg ''role'') (\<lambda>role.
     bind (getitem msg ''content'') (\<lambda>content.
       Inr (if role = ''user'' then HumanMessage content else AIMessage content)))"

fun convert_turns :: "turn list \<Rightarrow> message list result" where
  "convert_turns [] = Inr []"
| "convert_turns (msg # rest) =
     bind (convert_turn msg) (\<lambda>x. bind (convert_turns rest) (\<lambda>xs. Inr (x # xs)))"

text \<open>\<^verbatim>\<open>response and "output" in response\<close>, and \<^verbatim>\<open>response["output"]\<close> when it holds.\<close>

definition response_output :: "(string \<times> string) list option \<Rightarrow> string option" where
  "response_output response =
     (case response of
        None \<Rightarrow> None
      | Some d \<Rightarrow> if d \<noteq> [] \<and> map_of d ''output'' \<noteq> None then map_of d ''output'' else None)"

text \<open>\<^verbatim>\<open>request_data.get("input", "")\<close> and \<^verbatim>\<open>request_data.get("chat_history", [])\<close>.\<close>

definition get_input :: "request_data \<Rightarrow> string" where
  "get_input request = (case rq_input request of None \<Rightarrow> [] | Some s \<Rightarrow> s)"

definition get_chat_history :: "request_data \<Rightarrow> turn list" where
  "get_chat_history request = (case rq_chat_history request of None \<Rightarrow> [] | Some ts \<Rightarrow> ts)"

text \<open>
  The body of the \<^verbatim>\<open>try\<close> of \<open>plan_trip\<close>, with the planner as it is when the body
  returns or raises. The search of \<^verbatim>\<open>user_input\<close> for date ranges (lines 264-275) only
  breaks out of its loop: it changes nothing and is left out. The list of converted turns
  is built in full before \<^verbatim>\<open>extend\<close> runs.
\<close>

definition plan_trip_try ::
    "runtime \<Rightarrow> request_data \<Rightarrow> planner \<Rightarrow> (string \<rightharpoonup> pyval) result \<times> planner" where
  "plan_trip_try rt request self =
     (let user_input = get_input request;
          turns = get_chat_history request
      in case convert_turns turns of
           Inl e \<Rightarrow> (Inl e, self)
         | Inr new \<Rightarrow>
             (let self1 = self\<lparr>chat_history := chat_history self @ new\<rparr> in
              case format_messages rt user_input (chat_history self1) of
                Inl e \<Rightarrow> (Inl e, self1)
              | Inr messages \<Rightarrow>
                  (case ainvoke rt messages of
                     Inl e \<Rightarrow> (Inl e, self1)
                   | Inr response \<Rightarrow>
                       (case response_output response of
                          Some output \<Rightarrow>
                            (Inr [''success'' \<mapsto> PyBool True, ''data'' \<mapsto> PyStr output],
                             self1\<lparr>chat_history := chat_history self1 @ [AIMessage output]\<rparr>)
                        | None \<Rightarrow>
                            (Inr [''success'' \<mapsto> PyBool False,
                                  ''error'' \<mapsto> PyStr ''No valid response from the agent.''],
                             self1)))))"

definition newline :: char where
  "newline = CHR 0x0A"

text \<open>\<^verbatim>\<open>except Exception as e\<close>: what is not an instance of Exception goes on to the caller.\<close>

definition plan_trip ::
    "runtime \<Rightarrow> request_data \<Rightarrow> planner \<Rightarrow> (string \<rightharpoonup> pyval) result \<times> planner" where
  "plan_trip rt request self =
     (case plan_trip_try rt request self of
        (Inr r, self') \<Rightarrow> (Inr r, self')
      | (Inl e, self') \<Rightarrow>
          if isinstance e Exception
          then (Inr [''success'' \<mapsto> PyBool False,
                     ''error'' \<mapsto> PyStr (''Error in plan_trip: '' @ exc_str e
                                          @ [newline, newline] @ format_exc rt e)],
                self')
          else (Inl e, self'))"

text \<open>Calls one after the other on the same planner, each with its own runtime behaviour.\<close>

fun plan_trips ::
    "(runtime \<times> request_data) list \<Rightarrow> planner \<Rightarrow> (string \<rightharpoonup> pyval) result list \<times> planner" where
  "plan_trips [] self = ([], self)"
| "plan_trips ((rt, request) # calls) self =
     (case plan_trip rt request self of
        (r, self1) \<Rightarrow> (case plan_trips calls self1 of (rs, self2) \<Rightarrow> (r # rs, self2)))"

definition succeeded :: "(string \<rightharpoonup> pyval) result \<Rightarrow> bool" where
  "succeeded r = (case r of Inl e \<Rightarrow> False | Inr d \<Rightarrow> d ''success'' = Some (PyBool True))"

text \<open>
  Sample collaborators for concrete runs: an agent that answers with a given text, one
  whose invocation raises, one whose response has no output, one whose response has
  several entries; a request with two prior turns, one with a turn of a third role, one
  with none; a fresh planner.
\<close>

definition agent_answers :: "string \<Rightarrow> runtime" where
  "agent_answers answer =
     \<lparr>format_messages = (\<lambda>user_input history. Inr (history @ [HumanMessage user_input])),
      ainvoke = (\<lambda>messages. Inr (Some [(''output'', answer)])),
      format_exc = (\<lambda>e. ''Traceback (most recent call last)'')\<rparr>"

definition agent_raises :: "py_exc \<Rightarrow> runtime" where
  "agent_raises e =
     \<lparr>format_messages = (\<lambda>user_input history. Inr (history @ [HumanMessage user_input])),
      ainvoke = (\<lambda>messages. Inl e),
      format_exc = (\<lambda>e. ''Traceback (most recent call last)'')\<rparr>"

definition agent_silent :: runtime where
  "agent_silent =
     \<lparr>format_messages = (\<lambda>user_input history. Inr (history @ [HumanMessage user_input])),
      ainvoke = (\<lambda>messages. Inr (Some [(''input'', ''Plan a trip'')])),
      format_exc = (\<lambda>e. ''Traceback (most recent call last)'')\<rparr>"

definition paris_request :: request_data where
  "paris_request =
     \<lparr>rq_input = Some ''Plan a trip to Paris'',
      rq_chat_history = Some [[''role'' \<mapsto> ''user'', ''content'' \<mapsto> ''Hi''],
                              [''role'' \<mapsto> ''assistant'', ''content'' \<mapsto> ''Hello'']]\<rparr>"

definition agent_reports :: "string \<Rightarrow> runtime" where
  "agent_reports answer =
     \<lparr>format_messages = (\<lambda>user_input history. Inr (history @ [HumanMessage user_input])),
      ainvoke = (\<lambda>messages. Inr (Some [(''input'', ''Plan a trip to Paris''),
                                          (''output'', answer),
                                          (''log'', ''no tool was called'')])),
      format_exc = (\<lambda>e. ''Traceback (most recent call last)'')\<rparr>"

definition briefed_request :: request_data where
  "briefed_request =
     \<lparr>rq_input = Some ''Plan a trip to Paris'',
      rq_chat_history = Some [[''role'' \<mapsto> ''user'', ''content'' \<mapsto> ''Hi''],
                              [''role'' \<mapsto> ''assistant'', ''content'' \<mapsto> ''Hello''],
                              [''role'' \<mapsto> ''system'', ''content'' \<mapsto> ''Be brief'']]\<rparr>"

definition follow_up_request :: request_data where
  "follow_up_request = \<lparr>rq_input = Some ''And the weather?'', rq_chat_history = None\<rparr>"

definition fresh_planner :: planner where
  "fresh_planner = \<lparr>chat_history = []\<rparr>"

section \<open>The weather tool\<close>

























section \<open>Properties of the date resolver\<close>

lemma date_new_raises: "date_new y m d = Inl e \<Longrightarrow> exc_cls e = ValueError"
  by (auto simp: date_new_def split: if_splits)

lemma strptime_BdY_raises: "strptime_BdY data = Inl e \<Longrightarrow> exc_cls e = ValueError"
  by (auto simp: strptime_BdY_def split: option.splits if_splits dest: date_new_raises)

lemma loop_body_raises: "loop_body m R = Inl e \<Longrightarrow> isinstance e ValueError"
  by (auto simp: loop_body_def construct_def bind_def rollover_def replace_year_def isinstance_def
      split: sum.splits if_splits dest: date_new_raises strptime_BdY_raises)

lemma try_formats_returns:
  "try_formats fs s R = Inr None \<or> (\<exists>d. try_formats fs s R = Inr (Some d))"
proof (induction fs s R rule: try_formats.induct)
  case (1 s R)
  then show ?case by simp
next
  case (2 pattern date_format rest s R)
  show ?case
  proof (cases "re_match pattern s")
    case None
    with 2 show ?thesis by simp
  next
    case (Some m)
    show ?thesis
    proof (cases "loop_body m R")
      case (Inl e)
      with loop_body_raises [OF Inl] 2 Some show ?thesis by simp
    next
      case (Inr d)
      with Some show ?thesis by simp
    qed
  qed
qed

text \<open>
  C8 (as amended). With a reference date passed, \<open>parse_date_with_reference\<close> never reads
  \<^verbatim>\<open>date.today()\<close>, and the pattern loop raises nothing: it returns a date or runs out.
  When the loop returns a date, that date is the result whatever the clock shows and
  whatever the lenient parser would do: two runs agree. When the loop runs out, the
  result is decided by what the lenient parser does with the string and the reference
  date in that run, and two runs agree whenever the parser does the same in both.
\<close>

theorem resolver_determinism:
  "(try_formats formats date_str R = Inr None \<or> (\<exists>d. try_formats formats date_str R = Inr (Some d)))
   \<and> (try_formats formats date_str R = Inr (Some d)
        \<longrightarrow> parse_date_with_reference parse1 today1 date_str (Some R) = Inr d
          \<and> parse_date_with_reference parse2 today2 date_str (Some R) = Inr d)
   \<and> (parse1 date_str R = parse2 date_str R
        \<longrightarrow> parse_date_with_reference parse1 today1 date_str (Some R)
            = parse_date_with_reference parse2 today2 date_str (Some R))"
  using try_formats_returns [of formats date_str R]
  by (auto simp: parse_date_with_reference_def lenient_fallback_def)

text \<open>
  "December 23rd" under the reference date 2024-01-10, without the lenient parser and
  with it in another year; "someday", which the parser refuses in every year.
\<close>

theorem resolver_determinism_witness:
  "try_formats formats ''December 23rd'' \<lparr>year = 2024, month = 1, day = 10\<rparr>
      = Inr (Some \<lparr>year = 2024, month = 12, day = 23\<rparr>)
   \<and> parse_date_with_reference no_dateutil \<lparr>year = 2024, month = 1, day = 10\<rparr> ''December 23rd''
        (Some \<lparr>year = 2024, month = 1, day = 10\<rparr>) = Inr \<lparr>year = 2024, month = 12, day = 23\<rparr>
   \<and> parse_date_with_reference (dateutil_two_digit_year 2060) \<lparr>year = 2060, month = 7, day = 4\<rparr>
        ''December 23rd'' (Some \<lparr>year = 2024, month = 1, day = 10\<rparr>)
       = Inr \<lparr>year = 2024, month = 12, day = 23\<rparr>
   \<and> dateutil_two_digit_year 2026 ''someday'' \<lparr>year = 2024, month = 1, day = 10\<rparr>
       = dateutil_two_digit_year 2060 ''someday'' \<lparr>year = 2024, month = 1, day = 10\<rparr>
   \<and> parse_date_with_reference (dateutil_two_digit_year 2026) \<lparr>year = 2026, month = 11, day = 4\<rparr>
        ''someday'' (Some \<lparr>year = 2024, month = 1, day = 10\<rparr>)
       = Inr \<lparr>year = 2024, month = 1, day = 10\<rparr>
   \<and> parse_date_with_reference (dateutil_two_digit_year 2060) \<lparr>year = 2060, month = 7, day = 4\<rparr>
        ''someday'' (Some \<lparr>year = 2024, month = 1, day = 10\<rparr>)
       = Inr \<lparr>year = 2024, month = 1, day = 10\<rparr>"
proof -
  have h: "try_formats formats ''December 23rd'' \<lparr>year = 2024, month = 1, day = 10\<rparr>
      = Inr (Some \<lparr>year = 2024, month = 12, day = 23\<rparr>)"
    by code_simp
  have p: "dateutil_two_digit_year 2026 ''someday'' \<lparr>year = 2024, month = 1, day = 10\<rparr>
       = dateutil_two_digit_year 2060 ''someday'' \<lparr>year = 2024, month = 1, day = 10\<rparr>"
    by code_simp
  have s: "parse_date_with_reference (dateutil_two_digit_year 2026) \<lparr>year = 2026, month = 11, day = 4\<rparr>
        ''someday'' (Some \<lparr>year = 2024, month = 1, day = 10\<rparr>)
       = Inr \<lparr>year = 2024, month = 1, day = 10\<rparr>"
    by code_simp
  from h p s
    resolver_determinism [of "''December 23rd''" "\<lparr>year = 2024, month = 1, day = 10\<rparr>"
      "\<lparr>year = 2024, month = 12, day = 23\<rparr>" no_dateutil "\<lparr>year = 2024, month = 1, day = 10\<rparr>"
      "dateutil_two_digit_year 2060" "\<lparr>year = 2060, month = 7, day = 4\<rparr>"]
    resolver_determinism [of "''someday''" "\<lparr>year = 2024, month = 1, day = 10\<rparr>" _
      "dateutil_two_digit_year 2026" "\<lparr>year = 2026, month = 11, day = 4\<rparr>"
      "dateutil_two_digit_year 2060" "\<lparr>year = 2060, month = 7, day = 4\<rparr>"]
  show ?thesis by simp
qed

text \<open>
  C8 as stated fails: "2/29/00" reaches the lenient parser, which reads the year 2000
  when the library is loaded in 2026 (a plain date comes back and \<^verbatim>\<open>.date()\<close> raises)
  and the year 2100 when it is loaded in 2060 (no February 29, the parser's error is
  caught and the reference date is returned). Same string, same reference date, two results.
\<close>

theorem resolver_determinism_counterexample:
  "parse_date_with_reference (dateutil_two_digit_year 2026) \<lparr>year = 2026, month = 11, day = 4\<rparr>
        ''2/29/00'' (Some \<lparr>year = 2024, month = 6, day = 1\<rparr>)
       = Inl (Exc AttributeError ''datetime.date object has no attribute date'')
   \<and> parse_date_with_reference (dateutil_two_digit_year 2060) \<lparr>year = 2060, month = 7, day = 4\<rparr>
        ''2/29/00'' (Some \<lparr>year = 2024, month = 6, day = 1\<rparr>)
       = Inr \<lparr>year = 2024, month = 6, day = 1\<rparr>"
  by code_simp

subsection \<open>The pattern loop\<close>

lemma try_formats_first_match:
  "first_match fs s = Some m \<Longrightarrow> loop_body m R = Inr d \<Longrightarrow> try_formats fs s R = Inr (Some d)"
  by (induction fs s rule: first_match.induct) (auto split: option.splits)

lemma date_new_Inr:
  "date_new y m d = Inr D \<Longrightarrow>
     D = \<lparr>year = y, month = m, day = d\<rparr> \<and> 1 \<le> y \<and> y \<le> 9999 \<and> 1 \<le> m \<and> m \<le> 12
       \<and> 1 \<le> d \<and> d \<le> days_in_month y m"
  by (auto simp: date_new_def split: if_splits)

lemma strptime_BdY_valid:
  assumes "strptime_BdY data = Inr D"
  shows "1 \<le> month D \<and> month D \<le> 12 \<and> 1 \<le> day D \<and> 1 \<le> year D"
  using assms
  by (auto simp: strptime_BdY_def split: option.splits if_splits dest!: date_new_Inr)

lemma replace_year_ok:
  assumes "1 \<le> month D" "month D \<le> 12" "1 \<le> day D"
      "1 \<le> y" "y \<le> 9999" "day D \<le> days_in_month y (month D)"
  shows "replace_year D y = Inr (D\<lparr>year := y\<rparr>)"
  using assms by (simp add: replace_year_def date_new_def)

lemma dec1_loop:
  "try_formats formats ''December 1'' \<lparr>year = 2024, month = 12, day = 31\<rparr>
     = Inr (Some \<lparr>year = 2024, month = 12, day = 1\<rparr>)"
  by code_simp

lemma lit_rest_suffix: "lit_rest l s = Some t \<Longrightarrow> \<exists>p. s = p @ t"
proof (induction l s rule: lit_rest.induct)
  case (3 a l c s)
  then obtain p where "s = p @ t" by (auto split: if_splits)
  then have "c # s = (c # p) @ t" by simp
  then show ?case by blast
qed auto

lemma plus_rests_mem:
  "t \<in> set (plus_rests cs s) \<Longrightarrow> \<exists>p. s = p @ t \<and> p \<noteq> [] \<and> list_all (in_cset cs) p"
proof (induction s)
  case Nil
  then show ?case by simp
next
  case (Cons c s)
  then have c: "in_cset cs c" and m: "t \<in> set (plus_rests cs s) \<or> t = s"
    by (auto split: if_splits)
  from m show ?case
  proof
    assume "t \<in> set (plus_rests cs s)"
    with Cons.IH obtain p where "s = p @ t" "list_all (in_cset cs) p" by blast
    with c have "c # s = (c # p) @ t \<and> c # p \<noteq> [] \<and> list_all (in_cset cs) (c # p)" by simp
    then show ?thesis by blast
  next
    assume "t = s"
    with c have "c # s = [c] @ t \<and> [c] \<noteq> [] \<and> list_all (in_cset cs) [c]" by simp
    then show ?thesis by blast
  qed
qed

lemma run_suffix: "(t, g') \<in> set (run r (s, g)) \<Longrightarrow> \<exists>p. s = p @ t"
proof (induction r arbitrary: s g t g')
  case (Set cs)
  then show ?case by (cases s) (auto split: if_splits)
next
  case (Lit l)
  then show ?case by (auto split: option.splits dest: lit_rest_suffix [OF sym])
next
  case (Seq a b)
  then obtain u h where "(u, h) \<in> set (run a (s, g))" "(t, g') \<in> set (run b (u, h))"
    by auto
  with Seq.IH obtain p q where "s = p @ u" "u = q @ t" by blast
  then have "s = (p @ q) @ t" by simp
  then show ?case by blast
next
  case (Alt a b)
  then show ?case by auto
next
  case (Opt a)
  then show ?case by auto
next
  case (Plus cs)
  then show ?case by (auto dest: plus_rests_mem)
next
  case (Group n a)
  then show ?case by auto
qed

lemma plus_space_mem:
  assumes "(t, g') \<in> set (run (Plus Space) (s, g))"
  shows "g' = g \<and> (\<exists>p sp. s = p @ sp # t \<and> is_space sp)"
proof -
  from assms have g: "g' = g" and "t \<in> set (plus_rests Space s)" by auto
  from plus_rests_mem [OF this(2)] obtain p where p: "s = p @ t" "p \<noteq> []"
    "list_all (in_cset Space) p" by blast
  from p(2,3) have "in_cset Space (last p)" by (simp add: list_all_iff)
  with p(1,2) have "s = butlast p @ last p # t" "is_space (last p)"
    by simp_all
  with g show ?thesis by blast
qed

lemma set_digit_mem:
  "(t, g') \<in> set (run (Set Digit) (s, g)) \<Longrightarrow> g' = g \<and> (\<exists>c. s = c # t \<and> is_digit c)"
  by (cases s) (auto split: if_splits)

lemma regex_Y_mem:
  assumes "(t, g') \<in> set (run regex_Y (s, g))"
  shows "\<exists>y4. s = y4 @ t \<and> list_all is_digit y4 \<and> g' = (''Y'', y4) # g"
proof -
  have r: "regex_Y = Group ''Y'' (Seq (Set Digit) (Seq (Set Digit) (Seq (Set Digit) (Set Digit))))"
    by (simp add: regex_Y_def seqs_def)
  from assms obtain h where
    m: "(t, h) \<in> set (run (Seq (Set Digit) (Seq (Set Digit) (Seq (Set Digit) (Set Digit)))) (s, g))"
    and g': "g' = (''Y'', take (length s - length t) s) # h"
    unfolding r by auto
  from m obtain s1 g1 s2 g2 s3 g3 where
    "(s1, g1) \<in> set (run (Set Digit) (s, g))" "(s2, g2) \<in> set (run (Set Digit) (s1, g1))"
    "(s3, g3) \<in> set (run (Set Digit) (s2, g2))" "(t, h) \<in> set (run (Set Digit) (s3, g3))"
    by (fastforce simp del: run.simps(1))
  then obtain c1 c2 c3 c4 where "s = [c1, c2, c3, c4] @ t" "h = g"
    "is_digit c1" "is_digit c2" "is_digit c3" "is_digit c4"
    by (auto dest!: set_digit_mem)
  with g' have "s = [c1, c2, c3, c4] @ t \<and> list_all is_digit [c1, c2, c3, c4]
      \<and> g' = (''Y'', [c1, c2, c3, c4]) # g" by simp
  then show ?thesis by blast
qed

lemma format_regex_mem:
  assumes "(t, g') \<in> set (run format_regex (s, g))"
  shows "\<exists>pre sp y4. s = pre @ sp # y4 @ t \<and> is_space sp \<and> list_all is_digit y4
           \<and> map_of g' ''Y'' = Some y4"
proof -
  have f: "format_regex = Seq regex_B (Seq (Plus Space) (Seq regex_d (Seq (Plus Space) regex_Y)))"
    by (simp add: format_regex_def seqs_def)
  from assms obtain s1 g1 s2 g2 s3 g3 s4 g4 where
    a: "(s1, g1) \<in> set (run regex_B (s, g))"
    and b: "(s2, g2) \<in> set (run (Plus Space) (s1, g1))"
    and c: "(s3, g3) \<in> set (run regex_d (s2, g2))"
    and d: "(s4, g4) \<in> set (run (Plus Space) (s3, g3))"
    and e: "(t, g') \<in> set (run regex_Y (s4, g4))"
    unfolding f by (fastforce simp del: run.simps(6))
  from run_suffix [OF a] obtain p1 where p1: "s = p1 @ s1" by blast
  from run_suffix [OF b] obtain p2 where p2: "s1 = p2 @ s2" by blast
  from run_suffix [OF c] obtain p3 where p3: "s2 = p3 @ s3" by blast
  from plus_space_mem [OF d] obtain p4 sp where p4: "s3 = p4 @ sp # s4" "is_space sp" by blast
  from regex_Y_mem [OF e] obtain y4 where y: "s4 = y4 @ t" "list_all is_digit y4"
    "g' = (''Y'', y4) # g4" by blast
  from p1 p2 p3 p4 y have "s = (p1 @ p2 @ p3 @ p4) @ sp # y4 @ t" by simp
  with p4 y show ?thesis by auto
qed

lemma digit_run_then_other:
  assumes "list_all P xs" "\<not> P y"
  shows "takeWhile P (rev xs @ y # ys) = rev xs \<and> dropWhile P (rev xs @ y # ys) = y # ys"
proof -
  have a: "\<And>x. x \<in> set (rev xs) \<Longrightarrow> P x" using assms(1) by (simp add: list_all_iff)
  have "takeWhile P (rev xs @ y # ys) = rev xs @ takeWhile P (y # ys)"
    by (rule takeWhile_append2) (rule a)
  moreover have "dropWhile P (rev xs @ y # ys) = dropWhile P (y # ys)"
    by (rule dropWhile_append2) (rule a)
  ultimately show ?thesis using assms(2) by simp
qed

lemma digit_suffix_unique:
  assumes "pre @ sp # ds = pre' @ sp' # ds'"
      and "\<not> is_digit sp" "\<not> is_digit sp'" "list_all is_digit ds" "list_all is_digit ds'"
  shows "ds = ds' \<and> sp = sp'"
proof -
  have "rev ds @ sp # rev pre = rev ds' @ sp' # rev pre'"
    using arg_cong [OF assms(1), of rev] by simp
  moreover have "takeWhile is_digit (rev ds @ sp # rev pre) = rev ds"
    "dropWhile is_digit (rev ds @ sp # rev pre) = sp # rev pre"
    using assms(2,4) by (simp_all add: digit_run_then_other)
  moreover have "takeWhile is_digit (rev ds' @ sp' # rev pre') = rev ds'"
    "dropWhile is_digit (rev ds' @ sp' # rev pre') = sp' # rev pre'"
    using assms(3,5) by (simp_all add: digit_run_then_other)
  ultimately have "rev ds = rev ds'" "sp # rev pre = sp' # rev pre'" by simp_all
  then show ?thesis by simp
qed

lemma digit_char_props: "is_digit (digit_char n) \<and> code (digit_char n) - 48 = n mod 10"
proof -
  have "n mod 10 = 0 \<or> n mod 10 = 1 \<or> n mod 10 = 2 \<or> n mod 10 = 3 \<or> n mod 10 = 4
      \<or> n mod 10 = 5 \<or> n mod 10 = 6 \<or> n mod 10 = 7 \<or> n mod 10 = 8 \<or> n mod 10 = 9"
    by presburger
  then show ?thesis
    by (elim disjE) (simp_all add: digit_char_def is_digit_def code_def)
qed

lemma str_int_digits: "0 \<le> n \<Longrightarrow> list_all is_digit (str_int n) \<and> str_int n \<noteq> []"
proof (induction n rule: str_int.induct)
  case (1 n)
  show ?case
  proof (cases "n < 10")
    case True
    with 1 show ?thesis by (subst (1 2) str_int.simps) (simp add: digit_char_props)
  next
    case False
    with 1 have "list_all is_digit (str_int (n div 10))" by simp
    with False 1(3) show ?thesis by (subst (1 2) str_int.simps) (simp add: digit_char_props)
  qed
qed

lemma digits_value_str_int: "0 \<le> n \<Longrightarrow> digits_value (str_int n) = n"
proof (induction n rule: str_int.induct)
  case (1 n)
  show ?case
  proof (cases "n < 10")
    case True
    with 1(3) show ?thesis
      by (subst str_int.simps) (simp add: digits_value_def digit_char_props)
  next
    case False
    with 1 have "digits_value (str_int (n div 10)) = n div 10" by simp
    with False 1(3) show ?thesis
      by (subst str_int.simps) (simp add: digits_value_def digit_char_props)
  qed
qed

lemma digit_not_space: "is_digit c \<Longrightarrow> \<not> is_space c"
  by (auto simp: is_digit_def is_space_def Let_def)

lemma py_int_str_int:
  assumes "0 \<le> n"
  shows "py_int (str_int n) = n"
proof -
  from str_int_digits [OF assms] obtain c cs where s: "str_int n = c # cs" "is_digit c"
    by (cases "str_int n") auto
  then have "dropWhile is_space (str_int n) = str_int n" by (simp add: digit_not_space)
  with digits_value_str_int [OF assms] show ?thesis by (simp add: py_int_def)
qed

lemma construct_year:
  assumes "construct m R = Inr D"
  shows "year D = year R"
proof -
  define front where "front = fmt_group (group m ''month'') @ '' '' @ fmt_group (group m ''day'')"
  define data where "data = front @ CHR '' '' # str_int (year R)"
  from assms have s: "strptime_BdY data = Inr D"
    by (simp add: construct_def data_def front_def)
  then obtain found i where f: "re_match format_regex data = Some found" "fst found = []"
    and d: "date_new (py_int (fmt_group (group found ''Y''))) (i + 1)
              (py_int (fmt_group (group found ''d''))) = Inr D"
    by (auto simp: strptime_BdY_def split: option.splits if_splits)
  obtain g' where found: "found = ([], g')" using f(2) by (cases found) auto
  from f(1) found have "([], g') \<in> set (run format_regex (data, []))"
    by (auto simp: re_match_def split: list.splits)
  from format_regex_mem [OF this] obtain pre sp y4 where m: "data = pre @ sp # y4"
    "is_space sp" "list_all is_digit y4" "map_of g' ''Y'' = Some y4" by auto
  from m(2) have nsp: "\<not> is_digit sp" using digit_not_space by blast
  from d have yD: "year D = py_int y4"
    using m(4) found by (auto simp: group_def fmt_group_def dest!: date_new_Inr)
  show ?thesis
  proof (cases "0 \<le> year R")
    case True
    have "\<not> is_digit CHR '' ''" by (simp add: is_digit_def code_def)
    with digit_suffix_unique [of pre sp y4 front "CHR '' ''" "str_int (year R)"]
      m nsp str_int_digits [OF True] data_def
    have "y4 = str_int (year R)" by simp
    with yD py_int_str_int [OF True] show ?thesis by simp
  next
    case False
    then have neg: "str_int (year R) = CHR ''-'' # str_int (- year R)" "0 \<le> - year R"
      using str_int.simps [of "year R"] by simp_all
    have n: "\<not> is_digit CHR ''-''" by (simp add: is_digit_def code_def)
    have "data = (front @ '' '') @ CHR ''-'' # str_int (- year R)"
      by (simp add: data_def neg(1))
    with digit_suffix_unique [of pre sp y4 "front @ '' ''" "CHR ''-''" "str_int (- year R)"]
      m nsp n str_int_digits [OF neg(2)]
    have "sp = CHR ''-''" by simp
    with m(2) show ?thesis by (simp add: is_space_def code_def)
  qed
qed

lemma rollover_year:
  assumes "rollover D R = Inr d" and "year D = year R"
  shows "month d = month D \<and> day d = day D \<and> (year d = year R \<or> year d = year R + 1)"
  using assms
  by (auto simp: rollover_def replace_year_def split: if_splits dest!: date_new_Inr)

lemma try_formats_year:
  "try_formats fs s R = Inr (Some d) \<Longrightarrow> year d = year R \<or> year d = year R + 1"
proof (induction fs s R rule: try_formats.induct)
  case (1 s R)
  then show ?case by simp
next
  case (2 pattern date_format rest s R)
  show ?case
  proof (cases "re_match pattern s")
    case None
    with 2 show ?thesis by simp
  next
    case (Some m)
    show ?thesis
    proof (cases "loop_body m R")
      case (Inl e)
      with 2 Some show ?thesis by (simp split: if_splits)
    next
      case (Inr d')
      with 2(3) Some have d: "d' = d" by simp
      from Inr obtain D where c: "construct m R = Inr D" and r: "rollover D R = Inr d'"
        by (auto simp: loop_body_def bind_def split: sum.splits)
      from rollover_year [OF r construct_year [OF c]] d show ?thesis by simp
    qed
  qed
qed

text \<open>
  C1 (as amended). Let \<open>D\<close> be the date the loop constructs from the first pattern that
  matches the string; its year is the reference date's. If \<open>D\<close> is strictly earlier than
  the reference date \<open>R\<close>, \<open>R\<close> is not December 31, and the month and day of \<open>D\<close> exist in
  the year after \<open>R\<close>'s (which is at most 9999), then \<open>parse_date_with_reference\<close> returns
  \<open>D\<close> with the year \<open>R.year + 1\<close>. If \<open>R\<close> is December 31, it returns \<open>D\<close> unchanged, also
  when \<open>D\<close> is earlier than \<open>R\<close>. In particular "December 1" with the reference date
  2024-12-31 resolves to 2024-12-01.
\<close>

theorem rollover_rule:
  assumes "first_constructed date_str R = Some (Inr D)"
  shows "year D = year R
       \<and> (date_lt D R \<and> (month R, day R) \<noteq> (12, 31) \<and> year R + 1 \<le> 9999
            \<and> day D \<le> days_in_month (year R + 1) (month D)
          \<longrightarrow> parse_date_with_reference parse today date_str (Some R) = Inr (D\<lparr>year := year R + 1\<rparr>))
       \<and> ((month R, day R) = (12, 31)
          \<longrightarrow> parse_date_with_reference parse today date_str (Some R) = Inr D)
       \<and> parse_date_with_reference parse today ''December 1''
            (Some \<lparr>year = 2024, month = 12, day = 31\<rparr>) = Inr \<lparr>year = 2024, month = 12, day = 1\<rparr>"
proof -
  from assms obtain m where m: "first_match formats date_str = Some m"
    and c: "construct m R = Inr D"
    by (auto simp: first_constructed_def split: option.splits)
  from c have v: "1 \<le> month D \<and> month D \<le> 12 \<and> 1 \<le> day D \<and> 1 \<le> year D"
    unfolding construct_def by (rule strptime_BdY_valid)
  have a: "parse_date_with_reference parse today date_str (Some R) = Inr (D\<lparr>year := year R + 1\<rparr>)"
    if h: "date_lt D R" "(month R, day R) \<noteq> (12, 31)" "year R + 1 \<le> 9999"
       "day D \<le> days_in_month (year R + 1) (month D)"
  proof -
    have "replace_year D (year R + 1) = Inr (D\<lparr>year := year R + 1\<rparr>)"
      using v h by (intro replace_year_ok) (auto simp: date_lt_def)
    with h c have "loop_body m R = Inr (D\<lparr>year := year R + 1\<rparr>)"
      by (simp add: loop_body_def bind_def rollover_def)
    from try_formats_first_match [OF m this] show ?thesis
      by (simp add: parse_date_with_reference_def)
  qed
  have b: "parse_date_with_reference parse today date_str (Some R) = Inr D"
    if h: "(month R, day R) = (12, 31)"
  proof -
    from h c have "loop_body m R = Inr D"
      by (simp add: loop_body_def bind_def rollover_def)
    from try_formats_first_match [OF m this] show ?thesis
      by (simp add: parse_date_with_reference_def)
  qed
  have c: "parse_date_with_reference parse today ''December 1''
            (Some \<lparr>year = 2024, month = 12, day = 31\<rparr>) = Inr \<lparr>year = 2024, month = 12, day = 1\<rparr>"
    by (simp add: parse_date_with_reference_def dec1_loop)
  from a b c construct_year [OF \<open>construct m R = Inr D\<close>] show ?thesis by blast
qed

text \<open>
  The rule at "January 5th" with the reference date 2024-06-01 (rolled to 2025-01-05) and
  at "December 1" with the reference date 2024-12-31 (left in 2024).
\<close>

theorem rollover_rule_witness:
  "first_constructed ''January 5th'' \<lparr>year = 2024, month = 6, day = 1\<rparr>
      = Some (Inr \<lparr>year = 2024, month = 1, day = 5\<rparr>)
   \<and> date_lt \<lparr>year = 2024, month = 1, day = 5\<rparr> \<lparr>year = 2024, month = 6, day = 1\<rparr>
   \<and> parse_date_with_reference no_dateutil \<lparr>year = 2024, month = 6, day = 1\<rparr> ''January 5th''
        (Some \<lparr>year = 2024, month = 6, day = 1\<rparr>) = Inr \<lparr>year = 2025, month = 1, day = 5\<rparr>
   \<and> first_constructed ''December 1'' \<lparr>year = 2024, month = 12, day = 31\<rparr>
      = Some (Inr \<lparr>year = 2024, month = 12, day = 1\<rparr>)
   \<and> date_lt \<lparr>year = 2024, month = 12, day = 1\<rparr> \<lparr>year = 2024, month = 12, day = 31\<rparr>
   \<and> parse_date_with_reference no_dateutil \<lparr>year = 2024, month = 6, day = 1\<rparr> ''December 1''
        (Some \<lparr>year = 2024, month = 12, day = 31\<rparr>) = Inr \<lparr>year = 2024, month = 12, day = 1\<rparr>"
proof -
  have h1: "first_constructed ''January 5th'' \<lparr>year = 2024, month = 6, day = 1\<rparr>
      = Some (Inr \<lparr>year = 2024, month = 1, day = 5\<rparr>)"
    by code_simp
  have h2: "first_constructed ''December 1'' \<lparr>year = 2024, month = 12, day = 31\<rparr>
      = Some (Inr \<lparr>year = 2024, month = 12, day = 1\<rparr>)"
    by code_simp
  show ?thesis
    using h1 h2
      rollover_rule [OF h1, of no_dateutil "\<lparr>year = 2024, month = 6, day = 1\<rparr>"]
      rollover_rule [OF h2, of no_dateutil "\<lparr>year = 2024, month = 6, day = 1\<rparr>"]
    by (simp add: date_lt_def days_in_month_def)
qed

text \<open>
  C1 as stated fails on February 29: with the reference date 2024-03-01 the loop
  constructs 2024-02-29, which is earlier and not on a December 31, but there is no
  2025-02-29. \<^verbatim>\<open>replace\<close> raises ValueError, the loop goes on, and the result comes
  from the fallback: the reference date itself when the lenient parser is not installed,
  an AttributeError when the parser returns a plain date.
\<close>

theorem rollover_rule_counterexample:
  "first_constructed ''February 29'' \<lparr>year = 2024, month = 3, day = 1\<rparr>
      = Some (Inr \<lparr>year = 2024, month = 2, day = 29\<rparr>)
   \<and> date_lt \<lparr>year = 2024, month = 2, day = 29\<rparr> \<lparr>year = 2024, month = 3, day = 1\<rparr>
   \<and> parse_date_with_reference no_dateutil \<lparr>year = 2024, month = 3, day = 1\<rparr> ''February 29''
        (Some \<lparr>year = 2024, month = 3, day = 1\<rparr>) = Inr \<lparr>year = 2024, month = 3, day = 1\<rparr>
   \<and> parse_date_with_reference (dateutil_returns (DateObj \<lparr>year = 2024, month = 2, day = 29\<rparr>))
        \<lparr>year = 2024, month = 3, day = 1\<rparr> ''February 29''
        (Some \<lparr>year = 2024, month = 3, day = 1\<rparr>)
      = Inl (Exc AttributeError ''datetime.date object has no attribute date'')"
  by code_simp

text \<open>
  C2. The function is meant never to raise, yet it does: when the loop returns nothing
  and the lenient parser returns a plain \<^verbatim>\<open>date\<close> object (the class of the default it was
  given), \<^verbatim>\<open>.date()\<close> raises AttributeError, which the \<^verbatim>\<open>except\<close> clause of the fallback
  does not list, and the caller receives it. When the lenient parser itself fails with
  ImportError or ValueError, the reference date is returned unchanged.
\<close>

theorem fallback_attribute_error:
  "(try_formats formats date_str R = Inr None \<and> parse date_str R = Inr (DateObj d)
      \<longrightarrow> parse_date_with_reference parse today date_str (Some R)
            = Inl (Exc AttributeError ''datetime.date object has no attribute date''))
   \<and> (try_formats formats date_str R = Inr None \<and> parse date_str R = Inl e
        \<and> (isinstance e ImportError \<or> isinstance e ValueError)
      \<longrightarrow> parse_date_with_reference parse today date_str (Some R) = Inr R)"
  by (auto simp: parse_date_with_reference_def lenient_fallback_def bind_def obj_date_def
      isinstance_def)

text \<open>
  The failing input "12/23" with the reference date 2024-06-01, with a parser that
  returns the plain date 2024-12-23 and, for the second part, without the parser.
\<close>

theorem fallback_attribute_error_witness:
  "try_formats formats ''12/23'' \<lparr>year = 2024, month = 6, day = 1\<rparr> = Inr None
   \<and> parse_date_with_reference (dateutil_returns (DateObj \<lparr>year = 2024, month = 12, day = 23\<rparr>))
        \<lparr>year = 2024, month = 6, day = 1\<rparr> ''12/23'' (Some \<lparr>year = 2024, month = 6, day = 1\<rparr>)
      = Inl (Exc AttributeError ''datetime.date object has no attribute date'')
   \<and> isinstance (Exc ModuleNotFoundError ''No module named dateutil'') ImportError
   \<and> parse_date_with_reference no_dateutil \<lparr>year = 2024, month = 6, day = 1\<rparr> ''12/23''
        (Some \<lparr>year = 2024, month = 6, day = 1\<rparr>) = Inr \<lparr>year = 2024, month = 6, day = 1\<rparr>"
proof -
  have h: "try_formats formats ''12/23'' \<lparr>year = 2024, month = 6, day = 1\<rparr> = Inr None"
    by code_simp
  have i: "isinstance (Exc ModuleNotFoundError ''No module named dateutil'') ImportError"
    by (simp add: isinstance_def)
  from h i
    fallback_attribute_error [of "''12/23''" "\<lparr>year = 2024, month = 6, day = 1\<rparr>"
      "dateutil_returns (DateObj \<lparr>year = 2024, month = 12, day = 23\<rparr>)"
      "\<lparr>year = 2024, month = 12, day = 23\<rparr>" "\<lparr>year = 2024, month = 6, day = 1\<rparr>"]
    fallback_attribute_error [of "''12/23''" "\<lparr>year = 2024, month = 6, day = 1\<rparr>"
      no_dateutil _ "\<lparr>year = 2024, month = 6, day = 1\<rparr>"
      "Exc ModuleNotFoundError ''No module named dateutil''"]
  show ?thesis by (simp add: dateutil_returns_def no_dateutil_def)
qed

subsection \<open>Text the patterns do not read\<close>

lemma lit_rest_length: "lit_rest l s = Some t \<Longrightarrow> length t \<le> length s"
  by (induction l s rule: lit_rest.induct) (auto split: if_splits)

lemma plus_rests_length: "t \<in> set (plus_rests cs s) \<Longrightarrow> length t \<le> length s"
  by (induction s) (auto split: if_splits)

lemma run_length: "(t, g') \<in> set (run r (s, g)) \<Longrightarrow> length t \<le> length s"
proof (induction r arbitrary: s g t g')
  case (Set cs)
  then show ?case by (auto split: list.splits if_splits)
next
  case (Lit l)
  then show ?case by (auto split: option.splits dest: lit_rest_length [OF sym])
next
  case (Seq a b)
  then obtain u h where "(u, h) \<in> set (run a (s, g))" "(t, g') \<in> set (run b (u, h))"
    by auto
  with Seq.IH show ?case by (meson le_trans)
next
  case (Alt a b)
  then show ?case by auto
next
  case (Opt a)
  then show ?case by auto
next
  case (Plus cs)
  then show ?case by (auto dest: plus_rests_length)
next
  case (Group n a)
  then show ?case by auto
qed

lemma lit_rest_inert:
  "ascii_lower c \<notin> set (map ascii_lower l) \<Longrightarrow>
     lit_rest l (s @ c # u) = map_option (\<lambda>t. t @ c # u) (lit_rest l s)"
  by (induction l s rule: lit_rest.induct) auto

lemma plus_rests_inert:
  "\<not> in_cset cs c \<Longrightarrow> plus_rests cs (s @ c # u) = map (\<lambda>t. t @ c # u) (plus_rests cs s)"
  by (induction s) auto

lemma run_inert:
  "inert c r \<Longrightarrow> run r (s @ c # u, g) = map (\<lambda>(t, g'). (t @ c # u, g')) (run r (s, g))"
proof (induction r arbitrary: s g)
  case (Set cs)
  then show ?case by (cases s) auto
next
  case (Lit l)
  then show ?case by (auto simp: lit_rest_inert split: option.splits)
next
  case (Seq a b)
  then have a: "run a (s @ c # u, g) = map (\<lambda>(t, g'). (t @ c # u, g')) (run a (s, g))"
    and b: "\<And>s g. run b (s @ c # u, g) = map (\<lambda>(t, g'). (t @ c # u, g')) (run b (s, g))"
    by auto
  show ?case
    by (simp add: a map_concat comp_def case_prod_unfold b)
next
  case (Alt a b)
  then show ?case by simp
next
  case (Opt a)
  then show ?case by simp
next
  case (Plus cs)
  then show ?case by (simp add: plus_rests_inert comp_def)
next
  case (Group n a)
  then have ih: "run a (s @ c # u, g) = map (\<lambda>(t, g'). (t @ c # u, g')) (run a (s, g))"
    by simp
  have "\<And>t g'. (t, g') \<in> set (run a (s, g)) \<Longrightarrow>
          take (length (s @ c # u) - length (t @ c # u)) (s @ c # u) = take (length s - length t) s"
    by (auto dest: run_length)
  then show ?case
    by (auto simp: ih comp_def case_prod_unfold)
qed

lemma re_match_inert:
  "inert c r \<Longrightarrow> re_match r (s @ c # u) = map_option (\<lambda>(t, g). (t @ c # u, g)) (re_match r s)"
  by (auto simp: re_match_def run_inert split: list.splits)

lemma loop_body_groups: "loop_body (t, g) R = loop_body (t', g) R"
  by (simp add: loop_body_def construct_def group_def)

lemma try_formats_inert:
  "(\<forall>pf \<in> set fs. inert c (fst pf)) \<Longrightarrow> try_formats fs (s @ c # u) R = try_formats fs s R"
proof (induction fs s R rule: try_formats.induct)
  case (1 s R)
  then show ?case by simp
next
  case (2 pattern date_format rest s R)
  then have i: "inert c pattern" by simp
  show ?case
  proof (cases "re_match pattern s")
    case None
    with 2 i show ?thesis by (simp add: re_match_inert)
  next
    case (Some m)
    obtain t g where m: "m = (t, g)" by (cases m)
    have lb: "loop_body (t @ c # u, g) R = loop_body (t, g) R" by (rule loop_body_groups)
    from 2 i Some m show ?thesis
      by (auto simp: re_match_inert lb split: sum.splits)
  qed
qed

lemma comma_inert: "\<forall>pf \<in> set formats. inert CHR '','' (fst pf)"
  by code_simp

text \<open>
  C3 (as amended). A year written after the day is not read. For every string that the
  pattern loop resolves to a date \<open>d\<close> under the reference date \<open>R\<close> (such as "December 23"),
  the string followed by a comma and any text (such as "December 23, 2022") resolves to
  the same \<open>d\<close>, whose year is the reference date's or the one after: the result is
  built from the month and the day with the year of the reference date, through the
  rollover rule, and so it changes with the reference date.
\<close>

theorem explicit_year_not_read:
  assumes "try_formats formats date_str R = Inr (Some d)"
  shows "parse_date_with_reference parse today date_str (Some R) = Inr d
       \<and> parse_date_with_reference parse today (date_str @ '','' @ rest) (Some R) = Inr d
       \<and> (year d = year R \<or> year d = year R + 1)"
  using assms try_formats_inert [OF comma_inert, of date_str rest R] try_formats_year [OF assms]
  by (simp add: parse_date_with_reference_def)

text \<open>"December 23, 2022" under the reference date 2024-06-01 is "December 23" under it.\<close>

theorem explicit_year_not_read_witness:
  "try_formats formats ''December 23'' \<lparr>year = 2024, month = 6, day = 1\<rparr>
      = Inr (Some \<lparr>year = 2024, month = 12, day = 23\<rparr>)
   \<and> parse_date_with_reference no_dateutil \<lparr>year = 2024, month = 6, day = 1\<rparr>
        ''December 23, 2022'' (Some \<lparr>year = 2024, month = 6, day = 1\<rparr>)
      = Inr \<lparr>year = 2024, month = 12, day = 23\<rparr>"
proof -
  have h: "try_formats formats ''December 23'' \<lparr>year = 2024, month = 6, day = 1\<rparr>
      = Inr (Some \<lparr>year = 2024, month = 12, day = 23\<rparr>)"
    by code_simp
  from h explicit_year_not_read [OF h, of no_dateutil "\<lparr>year = 2024, month = 6, day = 1\<rparr>" "'' 2022''"]
  show ?thesis by simp
qed

text \<open>
  C3 as stated fails: "December 23, 2022" resolves to 2024-12-23 under the reference date
  2024-06-01 and to 2025-12-23 under 2025-06-01, never to 2022-12-23, and the two
  results differ.
\<close>

theorem explicit_year_counterexample:
  "parse_date_with_reference no_dateutil \<lparr>year = 2024, month = 6, day = 1\<rparr> ''December 23, 2022''
        (Some \<lparr>year = 2024, month = 6, day = 1\<rparr>) = Inr \<lparr>year = 2024, month = 12, day = 23\<rparr>
   \<and> parse_date_with_reference no_dateutil \<lparr>year = 2024, month = 6, day = 1\<rparr> ''December 23, 2022''
        (Some \<lparr>year = 2025, month = 6, day = 1\<rparr>) = Inr \<lparr>year = 2025, month = 12, day = 23\<rparr>"
  by code_simp

subsection \<open>The numeric pattern\<close>

lemma upper_code: "c \<in> set ''ABCDEFGHIJKLMNOPQRSTUVWXYZ'' \<Longrightarrow> 65 \<le> code c \<and> code c \<le> 90"
  by (auto simp: code_def)

lemma ascii_lower_id:
  assumes "code c < 65 \<or> 90 < code c"
  shows "ascii_lower c = c"
proof -
  from assms upper_code [of c] have "c \<notin> set ''ABCDEFGHIJKLMNOPQRSTUVWXYZ''"
    by fastforce
  then have "map_of (zip ''ABCDEFGHIJKLMNOPQRSTUVWXYZ'' ''abcdefghijklmnopqrstuvwxyz'') c = None"
    by (subst map_of_zip_is_None) simp_all
  then show ?thesis
    unfolding ascii_lower_def by (simp only: option.case)
qed

lemma lit_rest_digit:
  assumes "is_digit c" "97 \<le> code a"
  shows "lit_rest (a # l) (c # w) = None"
proof -
  from assms have "ascii_lower a = a" "ascii_lower c = c"
    by (auto intro!: ascii_lower_id simp: is_digit_def)
  moreover from assms have "a \<noteq> c" by (auto simp: is_digit_def)
  ultimately show ?thesis by simp
qed

lemma run_Lit_digit:
  assumes "is_digit c" "97 \<le> code a"
  shows "run (Lit (a # l)) (c # w, g) = []"
  using lit_rest_digit [OF assms] by simp

lemma regex_B_digit:
  assumes "is_digit c"
  shows "run regex_B (c # w, g) = []"
proof -
  have l: "\<And>a l. 97 \<le> code a \<Longrightarrow> run (Lit (a # l)) (c # w, g) = []"
    using assms by (rule run_Lit_digit)
  show ?thesis
    unfolding regex_B_def alts_def
    by (simp add: l code_def del: run.simps(2))
qed

lemma format_regex_digit: "is_digit c \<Longrightarrow> re_match format_regex (c # w) = None"
  by (simp add: re_match_def format_regex_def seqs_def regex_B_digit)

lemma run_digits12_mem:
  assumes "(t, g') \<in> set (run digits12 (s, g))"
  shows "g' = g \<and> (\<exists>c w. is_digit c \<and> s = (c # w) @ t)"
proof (cases s)
  case Nil
  with assms show ?thesis by (simp add: digits12_def)
next
  case (Cons c s')
  with assms have d: "is_digit c" and m: "(t, g') \<in> set (run (Opt (Set Digit)) (s', g))"
    by (auto simp: digits12_def split: if_splits)
  from m have "g' = g \<and> (t = s' \<or> (\<exists>e. s' = e # t))"
    by (cases s') (auto split: if_splits)
  with d Cons show ?thesis by auto
qed

lemma run_Group_digits12_mem:
  assumes "(t, g') \<in> set (run (Group n digits12) (s, g))"
  shows "\<exists>c w. is_digit c \<and> g' = (n, c # w) # g"
proof -
  from assms have m: "(t, g) \<in> set (run digits12 (s, g))"
    and g': "g' = (n, take (length s - length t) s) # g"
    by (auto dest: run_digits12_mem)
  from run_digits12_mem [OF m] obtain c w where "is_digit c" "s = (c # w) @ t" by blast
  with g' show ?thesis by auto
qed

lemma run_Lit_captures: "(t, g') \<in> set (run (Lit l) (s, g)) \<Longrightarrow> g' = g"
  by (auto split: option.splits)

lemma slash_month_group:
  assumes "re_match pattern_slash s = Some m"
  shows "\<exists>c w. group m ''month'' = Some (c # w) \<and> is_digit c"
proof -
  have p: "pattern_slash = Seq (Group ''month'' digits12) (Seq (Lit ''/'') (Group ''day'' digits12))"
    by (simp add: pattern_slash_def seqs_def)
  from assms have "m \<in> set (run pattern_slash (s, []))"
    by (auto simp: re_match_def split: list.splits)
  then obtain t1 g1 t2 g2 where
      a: "(t1, g1) \<in> set (run (Group ''month'' digits12) (s, []))"
    and b: "(t2, g2) \<in> set (run (Lit ''/'') (t1, g1))"
    and c: "m \<in> set (run (Group ''day'' digits12) (t2, g2))"
    unfolding p by (fastforce simp del: run.simps(2,7))
  from run_Group_digits12_mem [OF a] obtain c w where d: "is_digit c" and g1: "g1 = [(''month'', c # w)]"
    by blast
  from run_Lit_captures [OF b] have g2: "g2 = g1" .
  obtain t3 g3 where m: "m = (t3, g3)" by (cases m)
  from run_Group_digits12_mem [OF c [unfolded m]] obtain x where "g3 = (''day'', x) # g2"
    by blast
  with g1 g2 m d show ?thesis by (auto simp: group_def)
qed

text \<open>
  C4. The loop is meant to build the date from a numeric "MM/DD" and does not: the
  body passes the month group to \<^verbatim>\<open>strptime\<close> under the fixed format \<^verbatim>\<open>%B %d %Y\<close>, not
  the \<^verbatim>\<open>%m/%d\<close> its table pairs with the pattern, so for every string the slash pattern
  matches the construction raises ValueError (a run of digits is no month name) and
  the loop goes on without a date.
\<close>

theorem slash_pattern_never_constructs:
  assumes "re_match pattern_slash date_str = Some m"
  shows "construct m R = Inl (Exc ValueError ''time data does not match format'')"
proof -
  from slash_month_group [OF assms] obtain c w
    where "group m ''month'' = Some (c # w)" "is_digit c" by blast
  then show ?thesis
    by (simp add: construct_def strptime_BdY_def fmt_group_def format_regex_digit)
qed

text \<open>
  The failing inputs "12/23" and "1/2" with the reference date 2024-06-01: nothing is
  constructed; without the lenient parser the result is the reference date, and with
  a parser that returns a plain date the call raises.
\<close>

theorem slash_pattern_never_constructs_witness:
  "re_match pattern_slash ''12/23'' = Some ([], [(''day'', ''23''), (''month'', ''12'')])
   \<and> construct ([], [(''day'', ''23''), (''month'', ''12'')]) \<lparr>year = 2024, month = 6, day = 1\<rparr>
       = Inl (Exc ValueError ''time data does not match format'')
   \<and> try_formats formats ''12/23'' \<lparr>year = 2024, month = 6, day = 1\<rparr> = Inr None
   \<and> parse_date_with_reference no_dateutil \<lparr>year = 2024, month = 6, day = 1\<rparr> ''12/23''
        (Some \<lparr>year = 2024, month = 6, day = 1\<rparr>) = Inr \<lparr>year = 2024, month = 6, day = 1\<rparr>
   \<and> parse_date_with_reference no_dateutil \<lparr>year = 2024, month = 6, day = 1\<rparr> ''1/2''
        (Some \<lparr>year = 2024, month = 6, day = 1\<rparr>) = Inr \<lparr>year = 2024, month = 6, day = 1\<rparr>
   \<and> parse_date_with_reference (dateutil_returns (DateObj \<lparr>year = 2024, month = 1, day = 2\<rparr>))
        \<lparr>year = 2024, month = 6, day = 1\<rparr> ''1/2'' (Some \<lparr>year = 2024, month = 6, day = 1\<rparr>)
       = Inl (Exc AttributeError ''datetime.date object has no attribute date'')"
proof -
  have h: "re_match pattern_slash ''12/23'' = Some ([], [(''day'', ''23''), (''month'', ''12'')])"
    by code_simp
  have r: "try_formats formats ''12/23'' \<lparr>year = 2024, month = 6, day = 1\<rparr> = Inr None
   \<and> parse_date_with_reference no_dateutil \<lparr>year = 2024, month = 6, day = 1\<rparr> ''12/23''
        (Some \<lparr>year = 2024, month = 6, day = 1\<rparr>) = Inr \<lparr>year = 2024, month = 6, day = 1\<rparr>
   \<and> parse_date_with_reference no_dateutil \<lparr>year = 2024, month = 6, day = 1\<rparr> ''1/2''
        (Some \<lparr>year = 2024, month = 6, day = 1\<rparr>) = Inr \<lparr>year = 2024, month = 6, day = 1\<rparr>
   \<and> parse_date_with_reference (dateutil_returns (DateObj \<lparr>year = 2024, month = 1, day = 2\<rparr>))
        \<lparr>year = 2024, month = 6, day = 1\<rparr> ''1/2'' (Some \<lparr>year = 2024, month = 6, day = 1\<rparr>)
       = Inl (Exc AttributeError ''datetime.date object has no attribute date'')"
    by code_simp
  from h r slash_pattern_never_constructs [OF h, of "\<lparr>year = 2024, month = 6, day = 1\<rparr>"]
  show ?thesis by simp
qed


section \<open>Properties of the orchestrator\<close>

lemmas plan_defs = plan_trip_def plan_trip_try_def Let_def

lemmas run_defs = plan_trip_def plan_trip_try_def Let_def agent_answers_def agent_raises_def
  agent_silent_def paris_request_def follow_up_request_def fresh_planner_def get_input_def
  get_chat_history_def convert_turn_def getitem_def key_error_def bind_def response_output_def isinstance_def
  succeeded_def newline_def

lemma run_answers:
  "plan_trip (agent_answers ''Pack light'') paris_request fresh_planner
     = (Inr [''success'' \<mapsto> PyBool True, ''data'' \<mapsto> PyStr ''Pack light''],
        \<lparr>chat_history = [HumanMessage ''Hi'', AIMessage ''Hello'', AIMessage ''Pack light'']\<rparr>)"
  by (simp add: run_defs)

lemma run_silent:
  "plan_trip agent_silent paris_request fresh_planner
     = (Inr [''success'' \<mapsto> PyBool False,
             ''error'' \<mapsto> PyStr ''No valid response from the agent.''],
        \<lparr>chat_history = [HumanMessage ''Hi'', AIMessage ''Hello'']\<rparr>)"
  by (simp add: run_defs)


lemma run_raises:
  "plan_trip (agent_raises (Exc RuntimeError ''model overloaded'')) paris_request fresh_planner
     = (Inr [''success'' \<mapsto> PyBool False,
             ''error'' \<mapsto> PyStr (''Error in plan_trip: model overloaded'' @ [CHR 0x0A, CHR 0x0A]
                                  @ ''Traceback (most recent call last)'')],
        \<lparr>chat_history = [HumanMessage ''Hi'', AIMessage ''Hello'']\<rparr>)"
  by (simp add: run_defs)

text \<open>
  C5. Every dictionary \<open>plan_trip\<close> returns, on the success path, on the path of a response
  without output and on the path of a caught exception, has exactly one of the keys
  \<^verbatim>\<open>data\<close> and \<^verbatim>\<open>error\<close>; \<^verbatim>\<open>data\<close> is present exactly when \<^verbatim>\<open>success\<close> is true and
  \<^verbatim>\<open>error\<close> exactly when \<^verbatim>\<open>success\<close> is false.
\<close>

theorem result_envelope:
  assumes "plan_trip rt request self = (Inr res, self')"
  shows "(res ''data'' \<noteq> None) \<noteq> (res ''error'' \<noteq> None)
       \<and> (res ''data'' \<noteq> None) = (res ''success'' = Some (PyBool True))
       \<and> (res ''error'' \<noteq> None) = (res ''success'' = Some (PyBool False))"
  using assms
  by (auto simp: plan_defs split: sum.splits option.splits if_splits)

text \<open>The three paths: an answer, a response without output, an invocation that raises.\<close>

theorem result_envelope_witness:
  "plan_trip (agent_answers ''Pack light'') paris_request fresh_planner
     = (Inr [''success'' \<mapsto> PyBool True, ''data'' \<mapsto> PyStr ''Pack light''],
        \<lparr>chat_history = [HumanMessage ''Hi'', AIMessage ''Hello'', AIMessage ''Pack light'']\<rparr>)
   \<and> plan_trip agent_silent paris_request fresh_planner
     = (Inr [''success'' \<mapsto> PyBool False,
             ''error'' \<mapsto> PyStr ''No valid response from the agent.''],
        \<lparr>chat_history = [HumanMessage ''Hi'', AIMessage ''Hello'']\<rparr>)
   \<and> fst (plan_trip (agent_raises (Exc RuntimeError ''model overloaded'')) paris_request fresh_planner)
     = Inr [''success'' \<mapsto> PyBool False,
            ''error'' \<mapsto> PyStr (''Error in plan_trip: model overloaded'' @ [CHR 0x0A, CHR 0x0A]
                                 @ ''Traceback (most recent call last)'')]"
  using run_answers run_silent run_raises
    result_envelope [OF run_answers] result_envelope [OF run_silent] result_envelope [OF run_raises]
  by simp




lemma convert_turns_map:
  "convert_turns ts = Inr new \<Longrightarrow>
     list_all (\<lambda>msg. msg ''role'' \<noteq> None \<and> msg ''content'' \<noteq> None) ts
     \<and> new = map (\<lambda>msg. if msg ''role'' = Some ''user''
                         then HumanMessage (the (msg ''content''))
                         else AIMessage (the (msg ''content''))) ts"
proof (induction ts arbitrary: new)
  case Nil
  then show ?case by simp
next
  case (Cons msg ts)
  from Cons.prems obtain x xs where x: "convert_turn msg = Inr x"
    and xs: "convert_turns ts = Inr xs" and new: "new = x # xs"
    by (auto simp: bind_def split: sum.splits)
  from x have "msg ''role'' \<noteq> None \<and> msg ''content'' \<noteq> None
      \<and> x = (if msg ''role'' = Some ''user'' then HumanMessage (the (msg ''content''))
              else AIMessage (the (msg ''content'')))"
    by (auto simp: convert_turn_def getitem_def bind_def split: option.splits if_splits)
  with Cons.IH [OF xs] new show ?case by simp
qed

lemma plan_trip_success:
  assumes "plan_trip rt request self = (Inr d, self1)" and "d ''success'' = Some (PyBool True)"
  shows "\<exists>messages response answer.
           list_all (\<lambda>msg. msg ''role'' \<noteq> None \<and> msg ''content'' \<noteq> None)
             (case rq_chat_history request of None \<Rightarrow> [] | Some ts \<Rightarrow> ts)
         \<and> format_messages rt (case rq_input request of None \<Rightarrow> [] | Some s \<Rightarrow> s)
              (chat_history self
               @ map (\<lambda>msg. if msg ''role'' = Some ''user''
                             then HumanMessage (the (msg ''content''))
                             else AIMessage (the (msg ''content'')))
                   (case rq_chat_history request of None \<Rightarrow> [] | Some ts \<Rightarrow> ts))
             = Inr messages
         \<and> ainvoke rt messages = Inr (Some response)
         \<and> map_of response ''output'' = Some answer
         \<and> d = [''success'' \<mapsto> PyBool True, ''data'' \<mapsto> PyStr answer]
         \<and> chat_history self1
             = chat_history self
               @ map (\<lambda>msg. if msg ''role'' = Some ''user''
                             then HumanMessage (the (msg ''content''))
                             else AIMessage (the (msg ''content'')))
                   (case rq_chat_history request of None \<Rightarrow> [] | Some ts \<Rightarrow> ts)
               @ [AIMessage answer]"
proof -
  let ?turns = "case rq_chat_history request of None \<Rightarrow> [] | Some ts \<Rightarrow> ts"
  let ?input = "case rq_input request of None \<Rightarrow> [] | Some s \<Rightarrow> s"
  from assms obtain new messages response answer where
    c: "convert_turns ?turns = Inr new"
    and f: "format_messages rt ?input (chat_history self @ new) = Inr messages"
    and a: "ainvoke rt messages = Inr response"
    and o: "response_output response = Some answer"
    and d: "d = [''success'' \<mapsto> PyBool True, ''data'' \<mapsto> PyStr answer]"
    and h: "chat_history self1 = chat_history self @ new @ [AIMessage answer]"
    by (auto simp: plan_defs get_input_def get_chat_history_def
        split: sum.splits option.splits if_splits)
  from o obtain resp where r: "response = Some resp" "map_of resp ''output'' = Some answer"
    by (auto simp: response_output_def split: option.splits if_splits)
  from convert_turns_map [OF c] f a r d h show ?thesis by auto
qed

lemma plan_trips_success:
  "plan_trips calls self = (rs, self') \<Longrightarrow>
   list_all (\<lambda>r. \<exists>d. r = Inr d \<and> d ''success'' = Some (PyBool True)) rs \<Longrightarrow>
   \<exists>answers. length answers = length calls
     \<and> rs = map (\<lambda>a. Inr [''success'' \<mapsto> PyBool True, ''data'' \<mapsto> PyStr a]) answers
     \<and> chat_history self'
         = chat_history self
           @ concat (map (\<lambda>(c, a).
                 map (\<lambda>msg. if msg ''role'' = Some ''user''
                             then HumanMessage (the (msg ''content''))
                             else AIMessage (the (msg ''content'')))
                   (case rq_chat_history (snd c) of None \<Rightarrow> [] | Some ts \<Rightarrow> ts)
                 @ [AIMessage a]) (zip calls answers))"
proof (induction calls self arbitrary: rs self' rule: plan_trips.induct)
  case (1 self)
  then show ?case by simp
next
  case (2 rt request calls self)
  obtain r self1 where a: "plan_trip rt request self = (r, self1)"
    by (cases "plan_trip rt request self")
  obtain rs1 self2 where b: "plan_trips calls self1 = (rs1, self2)"
    by (cases "plan_trips calls self1")
  from 2(2) a b have eq: "rs = r # rs1" "self' = self2" by auto
  with 2(3) obtain d where d: "r = Inr d" "d ''success'' = Some (PyBool True)"
    and s: "list_all (\<lambda>r. \<exists>d. r = Inr d \<and> d ''success'' = Some (PyBool True)) rs1" by auto
  from plan_trip_success [OF a [unfolded d(1)] d(2)] obtain answer where
    r: "d = [''success'' \<mapsto> PyBool True, ''data'' \<mapsto> PyStr answer]"
    and h: "chat_history self1
             = chat_history self
               @ map (\<lambda>msg. if msg ''role'' = Some ''user''
                             then HumanMessage (the (msg ''content''))
                             else AIMessage (the (msg ''content'')))
                   (case rq_chat_history request of None \<Rightarrow> [] | Some ts \<Rightarrow> ts)
               @ [AIMessage answer]" by blast
  from 2(1) [OF a [symmetric] b s] obtain answers where
    n: "length answers = length calls"
    and m: "rs1 = map (\<lambda>a. Inr [''success'' \<mapsto> PyBool True, ''data'' \<mapsto> PyStr a]) answers"
    and k: "chat_history self2
         = chat_history self1
           @ concat (map (\<lambda>(c, a).
                 map (\<lambda>msg. if msg ''role'' = Some ''user''
                             then HumanMessage (the (msg ''content''))
                             else AIMessage (the (msg ''content'')))
                   (case rq_chat_history (snd c) of None \<Rightarrow> [] | Some ts \<Rightarrow> ts)
                 @ [AIMessage a]) (zip calls answers))" by blast
  have 1: "length (answer # answers) = length ((rt, request) # calls)" using n by simp
  have 2: "rs = map (\<lambda>a. Inr [''success'' \<mapsto> PyBool True, ''data'' \<mapsto> PyStr a])
                  (answer # answers)"
    by (simp only: eq(1) d(1) r m list.map)
  have 3: "chat_history self'
         = chat_history self
           @ concat (map (\<lambda>(c, a).
                 map (\<lambda>msg. if msg ''role'' = Some ''user''
                             then HumanMessage (the (msg ''content''))
                             else AIMessage (the (msg ''content'')))
                   (case rq_chat_history (snd c) of None \<Rightarrow> [] | Some ts \<Rightarrow> ts)
                 @ [AIMessage a]) (zip ((rt, request) # calls) (answer # answers)))"
    using h k eq(2) by simp
  from 1 2 3 show ?case by blast
qed

text \<open>
  C7. After a successful call the history is the history before it, then one message
  for every prior turn of the request, in order (a human message with the turn's content
  when its role is \<^verbatim>\<open>user\<close>, an assistant message with it for any other role), then one
  assistant message holding the \<^verbatim>\<open>output\<close> entry of the response the executor gave to
  the prompt assembled from that extended history. After any number of successful calls
  on one planner the history is the initial one followed by what each call appended, in
  order, and it is never shorter than before.
\<close>

theorem history_after_success:
  "(plan_trip rt request self = (Inr d, self1) \<and> d ''success'' = Some (PyBool True) \<longrightarrow>
      (\<exists>messages response answer.
           list_all (\<lambda>msg. msg ''role'' \<noteq> None \<and> msg ''content'' \<noteq> None)
             (case rq_chat_history request of None \<Rightarrow> [] | Some ts \<Rightarrow> ts)
         \<and> format_messages rt (case rq_input request of None \<Rightarrow> [] | Some s \<Rightarrow> s)
              (chat_history self
               @ map (\<lambda>msg. if msg ''role'' = Some ''user''
                             then HumanMessage (the (msg ''content''))
                             else AIMessage (the (msg ''content'')))
                   (case rq_chat_history request of None \<Rightarrow> [] | Some ts \<Rightarrow> ts))
             = Inr messages
         \<and> ainvoke rt messages = Inr (Some response)
         \<and> map_of response ''output'' = Some answer
         \<and> d = [''success'' \<mapsto> PyBool True, ''data'' \<mapsto> PyStr answer]
         \<and> chat_history self1
             = chat_history self
               @ map (\<lambda>msg. if msg ''role'' = Some ''user''
                             then HumanMessage (the (msg ''content''))
                             else AIMessage (the (msg ''content'')))
                   (case rq_chat_history request of None \<Rightarrow> [] | Some ts \<Rightarrow> ts)
               @ [AIMessage answer]))
   \<and> (plan_trips calls self = (rs, self')
        \<and> list_all (\<lambda>r. \<exists>d. r = Inr d \<and> d ''success'' = Some (PyBool True)) rs \<longrightarrow>
      (\<exists>answers. length answers = length calls
         \<and> rs = map (\<lambda>a. Inr [''success'' \<mapsto> PyBool True, ''data'' \<mapsto> PyStr a]) answers
         \<and> chat_history self'
             = chat_history self
               @ concat (map (\<lambda>(c, a).
                     map (\<lambda>msg. if msg ''role'' = Some ''user''
                                 then HumanMessage (the (msg ''content''))
                                 else AIMessage (the (msg ''content'')))
                       (case rq_chat_history (snd c) of None \<Rightarrow> [] | Some ts \<Rightarrow> ts)
                     @ [AIMessage a]) (zip calls answers))
         \<and> length (chat_history self) \<le> length (chat_history self')))"
proof (intro conjI impI)
  assume "plan_trip rt request self = (Inr d, self1) \<and> d ''success'' = Some (PyBool True)"
  then show "\<exists>messages response answer.
           list_all (\<lambda>msg. msg ''role'' \<noteq> None \<and> msg ''content'' \<noteq> None)
             (case rq_chat_history request of None \<Rightarrow> [] | Some ts \<Rightarrow> ts)
         \<and> format_messages rt (case rq_input request of None \<Rightarrow> [] | Some s \<Rightarrow> s)
              (chat_history self
               @ map (\<lambda>msg. if msg ''role'' = Some ''user''
                             then HumanMessage (the (msg ''content''))
                             else AIMessage (the (msg ''content'')))
                   (case rq_chat_history request of None \<Rightarrow> [] | Some ts \<Rightarrow> ts))
             = Inr messages
         \<and> ainvoke rt messages = Inr (Some response)
         \<and> map_of response ''output'' = Some answer
         \<and> d = [''success'' \<mapsto> PyBool True, ''data'' \<mapsto> PyStr answer]
         \<and> chat_history self1
             = chat_history self
               @ map (\<lambda>msg. if msg ''role'' = Some ''user''
                             then HumanMessage (the (msg ''content''))
                             else AIMessage (the (msg ''content'')))
                   (case rq_chat_history request of None \<Rightarrow> [] | Some ts \<Rightarrow> ts)
               @ [AIMessage answer]"
    using plan_trip_success by blast
next
  assume "plan_trips calls self = (rs, self')
        \<and> list_all (\<lambda>r. \<exists>d. r = Inr d \<and> d ''success'' = Some (PyBool True)) rs"
  then obtain answers where a: "length answers = length calls"
    "rs = map (\<lambda>a. Inr [''success'' \<mapsto> PyBool True, ''data'' \<mapsto> PyStr a]) answers"
    "chat_history self'
             = chat_history self
               @ concat (map (\<lambda>(c, a).
                     map (\<lambda>msg. if msg ''role'' = Some ''user''
                                 then HumanMessage (the (msg ''content''))
                                 else AIMessage (the (msg ''content'')))
                       (case rq_chat_history (snd c) of None \<Rightarrow> [] | Some ts \<Rightarrow> ts)
                     @ [AIMessage a]) (zip calls answers))"
    using plan_trips_success by blast
  then have "length (chat_history self) \<le> length (chat_history self')" by simp
  with a show "\<exists>answers. length answers = length calls
         \<and> rs = map (\<lambda>a. Inr [''success'' \<mapsto> PyBool True, ''data'' \<mapsto> PyStr a]) answers
         \<and> chat_history self'
             = chat_history self
               @ concat (map (\<lambda>(c, a).
                     map (\<lambda>msg. if msg ''role'' = Some ''user''
                                 then HumanMessage (the (msg ''content''))
                                 else AIMessage (the (msg ''content'')))
                       (case rq_chat_history (snd c) of None \<Rightarrow> [] | Some ts \<Rightarrow> ts)
                     @ [AIMessage a]) (zip calls answers))
         \<and> length (chat_history self) \<le> length (chat_history self')" by blast
qed

lemma run_reports:
  "plan_trip (agent_reports ''Pack light'') briefed_request fresh_planner
     = (Inr [''success'' \<mapsto> PyBool True, ''data'' \<mapsto> PyStr ''Pack light''],
        \<lparr>chat_history = [HumanMessage ''Hi'', AIMessage ''Hello'', AIMessage ''Be brief'',
                          AIMessage ''Pack light'']\<rparr>)"
  by (simp add: run_defs agent_reports_def briefed_request_def)

lemma run_two_reports:
  "plan_trips [(agent_reports ''Pack light'', briefed_request),
               (agent_reports ''Sunny'', follow_up_request)] fresh_planner
     = ([Inr [''success'' \<mapsto> PyBool True, ''data'' \<mapsto> PyStr ''Pack light''],
         Inr [''success'' \<mapsto> PyBool True, ''data'' \<mapsto> PyStr ''Sunny'']],
        \<lparr>chat_history = [HumanMessage ''Hi'', AIMessage ''Hello'', AIMessage ''Be brief'',
                          AIMessage ''Pack light'', AIMessage ''Sunny'']\<rparr>)"
  by (simp add: run_defs agent_reports_def briefed_request_def)

text \<open>
  One call with a turn of the role \<^verbatim>\<open>system\<close> and a response of three entries, and two
  calls in a row, on a fresh planner.
\<close>

theorem history_after_success_witness:
  "plan_trip (agent_reports ''Pack light'') briefed_request fresh_planner
     = (Inr [''success'' \<mapsto> PyBool True, ''data'' \<mapsto> PyStr ''Pack light''],
        \<lparr>chat_history = [HumanMessage ''Hi'', AIMessage ''Hello'', AIMessage ''Be brief'',
                          AIMessage ''Pack light'']\<rparr>)
   \<and> [''success'' \<mapsto> PyBool True, ''data'' \<mapsto> PyStr ''Pack light''] ''success'' = Some (PyBool True)
   \<and> rq_chat_history briefed_request
       = Some [[''role'' \<mapsto> ''user'', ''content'' \<mapsto> ''Hi''],
               [''role'' \<mapsto> ''assistant'', ''content'' \<mapsto> ''Hello''],
               [''role'' \<mapsto> ''system'', ''content'' \<mapsto> ''Be brief'']]
   \<and> ainvoke (agent_reports ''Pack light'')
         [HumanMessage ''Hi'', AIMessage ''Hello'', AIMessage ''Be brief'',
          HumanMessage ''Plan a trip to Paris'']
       = Inr (Some [(''input'', ''Plan a trip to Paris''), (''output'', ''Pack light''),
                    (''log'', ''no tool was called'')])
   \<and> plan_trips [(agent_reports ''Pack light'', briefed_request),
                  (agent_reports ''Sunny'', follow_up_request)] fresh_planner
     = ([Inr [''success'' \<mapsto> PyBool True, ''data'' \<mapsto> PyStr ''Pack light''],
         Inr [''success'' \<mapsto> PyBool True, ''data'' \<mapsto> PyStr ''Sunny'']],
        \<lparr>chat_history = [HumanMessage ''Hi'', AIMessage ''Hello'', AIMessage ''Be brief'',
                          AIMessage ''Pack light'', AIMessage ''Sunny'']\<rparr>)
   \<and> list_all (\<lambda>r. \<exists>d. r = Inr d \<and> d ''success'' = Some (PyBool True))
         [Inr [''success'' \<mapsto> PyBool True, ''data'' \<mapsto> PyStr ''Pack light''],
          Inr [''success'' \<mapsto> PyBool True, ''data'' \<mapsto> PyStr ''Sunny'']]"
proof -
  have s: "[''success'' \<mapsto> PyBool True, ''data'' \<mapsto> PyStr ''Pack light''] ''success''
             = Some (PyBool True)"
    by simp
  have l: "list_all (\<lambda>r. \<exists>d. r = Inr d \<and> d ''success'' = Some (PyBool True))
         [Inr [''success'' \<mapsto> PyBool True, ''data'' \<mapsto> PyStr ''Pack light''],
          Inr [''success'' \<mapsto> PyBool True, ''data'' \<mapsto> PyStr ''Sunny'']]"
    by simp
  have q: "rq_chat_history briefed_request
       = Some [[''role'' \<mapsto> ''user'', ''content'' \<mapsto> ''Hi''],
               [''role'' \<mapsto> ''assistant'', ''content'' \<mapsto> ''Hello''],
               [''role'' \<mapsto> ''system'', ''content'' \<mapsto> ''Be brief'']]"
    by (simp add: briefed_request_def)
  have a: "ainvoke (agent_reports ''Pack light'')
         [HumanMessage ''Hi'', AIMessage ''Hello'', AIMessage ''Be brief'',
          HumanMessage ''Plan a trip to Paris'']
       = Inr (Some [(''input'', ''Plan a trip to Paris''), (''output'', ''Pack light''),
                    (''log'', ''no tool was called'')])"
    by (simp add: agent_reports_def)
  note t = history_after_success [of "agent_reports ''Pack light''" briefed_request fresh_planner
      "[''success'' \<mapsto> PyBool True, ''data'' \<mapsto> PyStr ''Pack light'']"
      "\<lparr>chat_history = [HumanMessage ''Hi'', AIMessage ''Hello'', AIMessage ''Be brief'',
                          AIMessage ''Pack light'']\<rparr>"
      "[(agent_reports ''Pack light'', briefed_request), (agent_reports ''Sunny'', follow_up_request)]"
      "[Inr [''success'' \<mapsto> PyBool True, ''data'' \<mapsto> PyStr ''Pack light''],
        Inr [''success'' \<mapsto> PyBool True, ''data'' \<mapsto> PyStr ''Sunny'']]"
      "\<lparr>chat_history = [HumanMessage ''Hi'', AIMessage ''Hello'', AIMessage ''Be brief'',
                          AIMessage ''Pack light'', AIMessage ''Sunny'']\<rparr>"]
  from t run_reports run_two_reports s l q a show ?thesis by blast
qed

text \<open>
  C10. A call that does not succeed after the prior turns were converted leaves them in
  the history: the history after the call is the history before it followed by the
  converted turns, and is not restored.
\<close>

theorem failure_keeps_turns:
  assumes "convert_turns (get_chat_history request) = Inr new"
      and "plan_trip rt request self = (r, self')"
      and "\<not> succeeded r"
  shows "chat_history self' = chat_history self @ new"
  using assms
  by (auto simp: plan_defs succeeded_def split: sum.splits option.splits if_splits)

text \<open>A response without output, and an invocation that raises.\<close>

theorem failure_keeps_turns_witness:
  "convert_turns (get_chat_history paris_request) = Inr [HumanMessage ''Hi'', AIMessage ''Hello'']
   \<and> plan_trip agent_silent paris_request fresh_planner
     = (Inr [''success'' \<mapsto> PyBool False,
             ''error'' \<mapsto> PyStr ''No valid response from the agent.''],
        \<lparr>chat_history = [HumanMessage ''Hi'', AIMessage ''Hello'']\<rparr>)
   \<and> chat_history (snd (plan_trip (agent_raises (Exc RuntimeError ''model overloaded''))
                          paris_request fresh_planner))
     = chat_history fresh_planner @ [HumanMessage ''Hi'', AIMessage ''Hello'']"
proof -
  have c: "convert_turns (get_chat_history paris_request) = Inr [HumanMessage ''Hi'', AIMessage ''Hello'']"
    by (simp add: run_defs)
  have n1: "\<not> succeeded (Inr [''success'' \<mapsto> PyBool False,
             ''error'' \<mapsto> PyStr ''No valid response from the agent.''])"
    by (simp add: succeeded_def)
  have n2: "\<not> succeeded (Inr [''success'' \<mapsto> PyBool False,
             ''error'' \<mapsto> PyStr (''Error in plan_trip: model overloaded'' @ [CHR 0x0A, CHR 0x0A]
                                  @ ''Traceback (most recent call last)'')])"
    by (simp add: succeeded_def)
  from c run_silent failure_keeps_turns [OF c run_silent n1] failure_keeps_turns [OF c run_raises n2]
    run_raises
  show ?thesis by simp
qed

section \<open>Properties of the weather tool\<close>
















end
